theory Spec2Isabelle
  imports Complex_Main "HOL-Library.Word" "HOL-Library.Log_Nat"
begin

section \<open>Arrays and pixel arithmetic\<close>

type_synonym u8 = "8 word"
type_synonym u16 = "16 word"

subsection \<open>Python floats\<close>

text \<open>
  A Python float and an element of a numpy array of dtype float64 is an IEEE 754
  binary64 number. A finite one is kept as the real it denotes; every arithmetic
  operation computes the exact result and rounds it to the nearest representable number,
  ties to the even significand. \<open>binade x\<close> is the exponent \<open>e\<close> with
  \<open>2^e \<le> |x| < 2^(e+1)\<close>; the significand has 53 bits, and below \<open>2^-1022\<close>
  (subnormal numbers) the spacing stays \<open>2^-1074\<close>. Overflow to infinity is not
  represented: no operation of \<open>blend_frames\<close> or \<open>display_frame\<close> reaches it on bytes
  and an opacity of magnitude below \<open>2^1000\<close>.
\<close>

definition round_half_even :: "real \<Rightarrow> int" where
  "round_half_even x =
     (let n = \<lfloor>x\<rfloor>; r = x - of_int n
      in if r < 1/2 then n else if 1/2 < r then n + 1 else if even n then n else n + 1)"

definition binade :: "real \<Rightarrow> int" where
  "binade x = (if 1 \<le> \<bar>x\<bar> then int (floorlog 2 (nat \<lfloor>\<bar>x\<bar>\<rfloor>)) - 1
               else - int (floorlog 2 (nat (\<lceil>1 / \<bar>x\<bar>\<rceil> - 1))))"

definition float64 :: "real \<Rightarrow> real" where
  "float64 x =
     (if x = 0 then 0
      else let q = 2 powi (max (binade x) (- 1022) - 52)
           in of_int (round_half_even (x / q)) * q)"

definition fadd :: "real \<Rightarrow> real \<Rightarrow> real" where
  "fadd x y = float64 (x + y)"

definition fsub :: "real \<Rightarrow> real \<Rightarrow> real" where
  "fsub x y = float64 (x - y)"

definition fmul :: "real \<Rightarrow> real \<Rightarrow> real" where
  "fmul x y = float64 (x * y)"

definition fdiv :: "real \<Rightarrow> real \<Rightarrow> real" where
  "fdiv x y = float64 (x / y)"

text \<open>An unsigned integer element read in a float expression (the conversion is exact).\<close>

definition to_float :: "'a::len word \<Rightarrow> real" where
  "to_float w = real (unat w)"

text \<open>
  \<open>ndarray.astype(np.uint8)\<close> on a float array drops the fractional part (rounding
  towards zero); outside 0..255 the C cast keeps the low byte of the integer.
\<close>

definition trunc :: "real \<Rightarrow> int" where
  "trunc x = (if 0 \<le> x then \<lfloor>x\<rfloor> else \<lceil>x\<rceil>)"

definition astype_uint8 :: "real \<Rightarrow> u8" where
  "astype_uint8 x = word_of_int (trunc x)"

definition np_clip :: "real \<Rightarrow> real \<Rightarrow> real \<Rightarrow> real" where
  "np_clip x lo hi = min (max x lo) hi"

subsection \<open>numpy arrays\<close>

text \<open>
  A frame is a numpy array of two axes, shape \<open>(height, width)\<close>, or of three, shape
  \<open>(height, width, chans)\<close>. \<open>items\<close> holds its rows, a row its cells in column order,
  and a cell the values along the last axis: \<open>chans\<close> values in a three-axis array, and
  the one value at that row and column in a two-axis array. The shape is kept beside
  the items because an axis of length 0 still takes part in the shape checks.
\<close>

record 'a ndarray =
  ndim :: nat
  height :: nat
  width :: nat
  chans :: nat
  items :: "'a list list list"

text \<open>\<open>np.array\<close> of a list of rows of values, and of a list of rows of pixels.\<close>

definition array2 :: "'a list list \<Rightarrow> 'a ndarray" where
  "array2 rows =
     \<lparr>ndim = 2, height = length rows,
      width = (case rows of [] \<Rightarrow> 0 | r # _ \<Rightarrow> length r),
      chans = 1, items = map (map (\<lambda>v. [v])) rows\<rparr>"

definition array3 :: "'a list list list \<Rightarrow> 'a ndarray" where
  "array3 rows =
     \<lparr>ndim = 3, height = length rows,
      width = (case rows of [] \<Rightarrow> 0 | r # _ \<Rightarrow> length r),
      chans = (case concat rows of [] \<Rightarrow> 0 | p # _ \<Rightarrow> length p),
      items = rows\<rparr>"

text \<open>What numpy guarantees of every array of two or three axes: the items fill the shape.\<close>

definition well_formed :: "'a ndarray \<Rightarrow> bool" where
  "well_formed a =
     ((ndim a = 3 \<or> ndim a = 2 \<and> chans a = 1)
      \<and> length (items a) = height a
      \<and> list_all (\<lambda>r. length r = width a \<and> list_all (\<lambda>p. length p = chans a) r) (items a))"

text \<open>\<open>a.shape[:2]\<close>\<close>

definition shape2 :: "'a ndarray \<Rightarrow> nat \<times> nat" where
  "shape2 a = (height a, width a)"

text \<open>\<open>a[:h, :w]\<close>\<close>

definition getitem_slice :: "nat \<Rightarrow> nat \<Rightarrow> 'a ndarray \<Rightarrow> 'a ndarray" where
  "getitem_slice h w a =
     a\<lparr>height := min h (height a), width := min w (width a),
       items := map (take w) (take h (items a))\<rparr>"

text \<open>
  An operation of one array and scalars (\<open>opacity * a\<close>, \<open>255 - a\<close>, \<open>np.clip(a, 0, 255)\<close>,
  \<open>a.astype(np.uint8)\<close>): the result has the shape of the array.
\<close>

definition map_array :: "('a \<Rightarrow> 'b) \<Rightarrow> 'a ndarray \<Rightarrow> 'b ndarray" where
  "map_array f a =
     \<lparr>ndim = ndim a, height = height a, width = width a, chans = chans a,
      items = map (map (map f)) (items a)\<rparr>"

text \<open>
  Broadcasting aligns two shapes at their last axis, so an array of shape \<open>(h, w)\<close>
  meets one of three axes as the array of shape \<open>(1, h, w)\<close>: its rows run along the
  second axis of the other and its columns along the third.
\<close>

definition aligned_shape :: "'a ndarray \<Rightarrow> nat \<times> nat \<times> nat" where
  "aligned_shape a =
     (if ndim a = 2 then (1, height a, width a) else (height a, width a, chans a))"

definition aligned_items :: "'a ndarray \<Rightarrow> 'a list list list" where
  "aligned_items a = (if ndim a = 2 then [map (map hd) (items a)] else items a)"

definition of_aligned :: "nat \<Rightarrow> nat \<times> nat \<times> nat \<Rightarrow> 'a list list list \<Rightarrow> 'a ndarray" where
  "of_aligned n s xs =
     (case s of (d0, d1, d2) \<Rightarrow>
        if n = 2
        then \<lparr>ndim = 2, height = d1, width = d2, chans = 1,
              items = map (map (\<lambda>v. [v])) (hd xs)\<rparr>
        else \<lparr>ndim = 3, height = d0, width = d1, chans = d2, items = xs\<rparr>)"

text \<open>
  Two shapes broadcast together when on every axis the lengths are equal or one of
  them is 1; the axis of length 1 is then repeated.
\<close>

definition broadcastable :: "nat \<times> nat \<times> nat \<Rightarrow> nat \<times> nat \<times> nat \<Rightarrow> bool" where
  "broadcastable s t =
     (case (s, t) of ((a0, a1, a2), (b0, b1, b2)) \<Rightarrow>
        (a0 = b0 \<or> a0 = 1 \<or> b0 = 1) \<and> (a1 = b1 \<or> a1 = 1 \<or> b1 = 1)
        \<and> (a2 = b2 \<or> a2 = 1 \<or> b2 = 1))"

definition broadcast_dim :: "nat \<Rightarrow> nat \<Rightarrow> nat" where
  "broadcast_dim a b = (if a = 1 then b else a)"

definition broadcast_shape :: "nat \<times> nat \<times> nat \<Rightarrow> nat \<times> nat \<times> nat \<Rightarrow> nat \<times> nat \<times> nat" where
  "broadcast_shape s t =
     (case (s, t) of ((a0, a1, a2), (b0, b1, b2)) \<Rightarrow>
        (broadcast_dim a0 b0, broadcast_dim a1 b1, broadcast_dim a2 b2))"

definition stretch :: "nat \<Rightarrow> 'a list \<Rightarrow> 'a list" where
  "stretch n xs = (if length xs = n then xs else replicate n (hd xs))"

definition broadcast_to :: "nat \<times> nat \<times> nat \<Rightarrow> 'a list list list \<Rightarrow> 'a list list list" where
  "broadcast_to s xs =
     (case s of (d0, d1, d2) \<Rightarrow>
        stretch d0 (map (\<lambda>p. stretch d1 (map (stretch d2) p)) xs))"

datatype error = ValueError | Cv2Error

text \<open>
  An element-wise operation of two arrays (\<open>a + b\<close>, \<open>a * b\<close>, \<open>a - b\<close>): ValueError
  when the shapes do not broadcast together; the result has as many axes as the operand
  with more.
\<close>

definition ufunc2 :: "('a \<Rightarrow> 'b \<Rightarrow> 'c) \<Rightarrow> 'a ndarray \<Rightarrow> 'b ndarray \<Rightarrow> error + 'c ndarray" where
  "ufunc2 f a b =
     (let s = aligned_shape a; t = aligned_shape b
      in if broadcastable s t
         then let r = broadcast_shape s t
              in Inr (of_aligned (max (ndim a) (ndim b)) r
                        (map2 (\<lambda>p q. map2 (\<lambda>x y. map2 f x y) p q)
                           (broadcast_to r (aligned_items a)) (broadcast_to r (aligned_items b))))
         else Inl ValueError)"

text \<open>An operation applied to the result of one that may have raised.\<close>

definition then_do :: "error + 'a \<Rightarrow> ('a \<Rightarrow> error + 'b) \<Rightarrow> error + 'b" where
  "then_do r f = (case r of Inl e \<Rightarrow> Inl e | Inr a \<Rightarrow> f a)"

text \<open>
  \<open>a[:h, :w] = v\<close>. The value must broadcast to the shape of the slice: on every axis
  (after alignment at the last one) its length is the length of the slice or 1, and a
  value with more axes than the slice is accepted when its leading axis has length 1.
  Otherwise ValueError is raised and nothing is written. The rows and columns past the
  slice keep their cells.
\<close>

definition assignable :: "nat \<times> nat \<times> nat \<Rightarrow> nat \<times> nat \<times> nat \<Rightarrow> bool" where
  "assignable s t =
     (case (s, t) of ((a0, a1, a2), (b0, b1, b2)) \<Rightarrow>
        (a0 = b0 \<or> a0 = 1) \<and> (a1 = b1 \<or> a1 = 1) \<and> (a2 = b2 \<or> a2 = 1))"

definition overwrite :: "nat \<Rightarrow> nat \<Rightarrow> 'a list list \<Rightarrow> 'a list list \<Rightarrow> 'a list list" where
  "overwrite h w a x =
     map (\<lambda>i. if i < h
              then map (\<lambda>j. if j < w then x ! i ! j else a ! i ! j) [0..<length (a ! i)]
              else a ! i) [0..<length a]"

definition setitem_slice :: "nat \<Rightarrow> nat \<Rightarrow> 'a ndarray \<Rightarrow> 'a ndarray \<Rightarrow> error + 'a ndarray" where
  "setitem_slice h w a v =
     (let t = aligned_shape (getitem_slice h w a)
      in if assignable (aligned_shape v) t
         then Inr (a\<lparr>items := overwrite h w (items a)
                      (items (of_aligned (ndim a) t (broadcast_to t (aligned_items v))))\<rparr>)
         else Inl ValueError)"

subsection \<open>The five blend formulas\<close>

text \<open>
  Each takes the opacity, \<open>result[:visible_h, :visible_w]\<close> and \<open>overlay_visible\<close>, and
  yields the uint8 array that is assigned to the slice. A uint8 array meeting a float
  becomes a float64 array.

  \<open>((1 - opacity) * result[...] + opacity * overlay_visible).astype(np.uint8)\<close>
\<close>

definition blend_normal :: "real \<Rightarrow> u8 ndarray \<Rightarrow> u8 ndarray \<Rightarrow> error + u8 ndarray" where
  "blend_normal opacity region overlay_visible =
     then_do (ufunc2 fadd (map_array (\<lambda>x. fmul (fsub 1 opacity) (to_float x)) region)
                          (map_array (\<lambda>x. fmul opacity (to_float x)) overlay_visible))
       (\<lambda>s. Inr (map_array astype_uint8 s))"

text \<open>
  \<open>added = result[...] + overlay_visible * opacity\<close>, then
  \<open>np.clip(added, 0, 255).astype(np.uint8)\<close>.
\<close>

definition blend_add :: "real \<Rightarrow> u8 ndarray \<Rightarrow> u8 ndarray \<Rightarrow> error + u8 ndarray" where
  "blend_add opacity region overlay_visible =
     then_do (ufunc2 fadd (map_array to_float region)
                          (map_array (\<lambda>x. fmul (to_float x) opacity) overlay_visible))
       (\<lambda>added. Inr (map_array (\<lambda>x. astype_uint8 (np_clip x 0 255)) added))"

text \<open>
  \<open>multiplied = result[...] * (1 - opacity + opacity * overlay_visible / 255)\<close>
\<close>

definition blend_multiply :: "real \<Rightarrow> u8 ndarray \<Rightarrow> u8 ndarray \<Rightarrow> error + u8 ndarray" where
  "blend_multiply opacity region overlay_visible =
     then_do (ufunc2 fmul (map_array to_float region)
                (map_array (\<lambda>x. fadd (fsub 1 opacity) (fdiv (fmul opacity (to_float x)) 255))
                   overlay_visible))
       (\<lambda>multiplied. Inr (map_array (\<lambda>x. astype_uint8 (np_clip x 0 255)) multiplied))"

text \<open>
  \<open>inverted_main = 255 - result[...]\<close> and \<open>inverted_overlay = 255 - overlay_visible\<close> are
  uint8 arrays (the scalar 255 fits the dtype), so the two inversions are byte
  subtractions; \<open>screened = 255 - (inverted_main * (1 - opacity + opacity *
  inverted_overlay / 255))\<close>.
\<close>

definition blend_screen :: "real \<Rightarrow> u8 ndarray \<Rightarrow> u8 ndarray \<Rightarrow> error + u8 ndarray" where
  "blend_screen opacity region overlay_visible =
     (let inverted_main = map_array (\<lambda>x. 255 - x) region;
          inverted_overlay = map_array (\<lambda>x. 255 - x) overlay_visible
      in then_do (ufunc2 fmul (map_array to_float inverted_main)
                    (map_array (\<lambda>x. fadd (fsub 1 opacity) (fdiv (fmul opacity (to_float x)) 255))
                       inverted_overlay))
           (\<lambda>product. Inr (map_array (\<lambda>x. astype_uint8 (np_clip (fsub 255 x) 0 255)) product)))"

text \<open>
  \<open>diff = np.abs(result[...] - overlay_visible)\<close>: both operands are uint8 arrays, so the
  subtraction wraps modulo 256 and \<open>np.abs\<close> of an unsigned array is the array itself.
  Then \<open>(result[...] * (1 - opacity) + diff * opacity).astype(np.uint8)\<close>.
\<close>

definition blend_difference :: "real \<Rightarrow> u8 ndarray \<Rightarrow> u8 ndarray \<Rightarrow> error + u8 ndarray" where
  "blend_difference opacity region overlay_visible =
     then_do (ufunc2 (\<lambda>x y. x - y) region overlay_visible)
       (\<lambda>diff. then_do (ufunc2 fadd
                           (map_array (\<lambda>x. fmul (to_float x) (fsub 1 opacity)) region)
                           (map_array (\<lambda>x. fmul (to_float x) opacity) diff))
                  (\<lambda>s. Inr (map_array astype_uint8 s)))"

subsection \<open>The store of arrays\<close>

text \<open>
  numpy arrays are objects: \<open>main_frame.copy()\<close> allocates a new one, and a slice
  assignment writes into the array it is applied to. The store is the list of the
  arrays allocated so far; an array's address is its position.
\<close>

type_synonym frame = "u8 ndarray"
type_synonym addr = nat
type_synonym heap = "frame list"

definition np_copy :: "heap \<Rightarrow> addr \<Rightarrow> addr \<times> heap" where
  "np_copy h a = (length h, h @ [h ! a])"

text \<open>
  One branch of \<open>blend_frames\<close>: \<open>result[:visible_h, :visible_w] = value\<close>, where the
  value is the outcome of one of the five formulas. A call returns the store it leaves
  and either the address of its result or the exception it raised; numpy checks the
  shapes before it writes, so a raise leaves the arrays as they were.
\<close>

definition blend_region ::
  "heap \<Rightarrow> addr \<Rightarrow> nat \<Rightarrow> nat \<Rightarrow> error + frame \<Rightarrow> (error + addr) \<times> heap" where
  "blend_region h result visible_h visible_w value =
     (case then_do value (setitem_slice visible_h visible_w (h ! result)) of
        Inl e \<Rightarrow> (Inl e, h)
      | Inr a \<Rightarrow> (Inr result, h[result := a]))"

text \<open>\<open>OverlayManager.blend_frames\<close>; the result is the address of the new array.\<close>

definition blend_frames ::
  "heap \<Rightarrow> addr \<Rightarrow> addr \<Rightarrow> string \<Rightarrow> real \<Rightarrow> (error + addr) \<times> heap" where
  "blend_frames h main_frame overlay_frame blend_mode opacity =
     (let (result, h1) = np_copy h main_frame;
          (main_h, main_w) = shape2 (h1 ! main_frame);
          (overlay_h, overlay_w) = shape2 (h1 ! overlay_frame);
          visible_h = min main_h overlay_h;
          visible_w = min main_w overlay_w;
          overlay_visible = getitem_slice visible_h visible_w (h1 ! overlay_frame);
          region = getitem_slice visible_h visible_w (h1 ! result)
      in if blend_mode = ''Normal''
         then blend_region h1 result visible_h visible_w
                (blend_normal opacity region overlay_visible)
         else if blend_mode = ''Add''
         then blend_region h1 result visible_h visible_w
                (blend_add opacity region overlay_visible)
         else if blend_mode = ''Multiply''
         then blend_region h1 result visible_h visible_w
                (blend_multiply opacity region overlay_visible)
         else if blend_mode = ''Screen''
         then blend_region h1 result visible_h visible_w
                (blend_screen opacity region overlay_visible)
         else if blend_mode = ''Difference''
         then blend_region h1 result visible_h visible_w
                (blend_difference opacity region overlay_visible)
         else (Inr result, h1))"

text \<open>The array a call returns, read back from the store it leaves.\<close>

definition returned :: "(error + addr) \<times> heap \<Rightarrow> frame option" where
  "returned r = (case r of (Inl e, h) \<Rightarrow> None | (Inr a, h) \<Rightarrow> Some (h ! a))"

text \<open>The blend modes \<open>blend_frames\<close> knows.\<close>

definition blend_modes :: "string list" where
  "blend_modes = [''Normal'', ''Add'', ''Multiply'', ''Screen'', ''Difference'']"

text \<open>
  The overlay's visible part fits the overlap of the main frame when it broadcasts to
  its shape: the same number of axes and the same channel count, or one channel under
  a main frame of several, or one of the coincidences of lengths that alignment at the
  last axis allows between an array of two axes and one of three.
\<close>

definition fits :: "frame \<Rightarrow> frame \<Rightarrow> bool" where
  "fits main_frame overlay_frame =
     (let visible_h = min (height main_frame) (height overlay_frame);
          visible_w = min (width main_frame) (width overlay_frame)
      in assignable (aligned_shape (getitem_slice visible_h visible_w overlay_frame))
                    (aligned_shape (getitem_slice visible_h visible_w main_frame)))"

section \<open>The sync group\<close>

text \<open>
  Viewer windows are objects compared by identity; a window is named by its index
  \<open>pid\<close> in the list of the windows that exist. \<open>SyncGroup.players\<close> is a Python
  list (insertion order, duplicates possible) and \<open>SyncGroup.master\<close> is a window or
  \<open>None\<close>.
\<close>

type_synonym pid = nat

record SyncGroup =
  players :: "pid list"
  master :: "pid option"

text \<open>\<open>SyncGroup.__init__\<close>\<close>

definition new_SyncGroup :: SyncGroup where
  "new_SyncGroup = \<lparr>players = [], master = None\<rparr>"

definition set_master :: "SyncGroup \<Rightarrow> pid \<Rightarrow> SyncGroup" where
  "set_master g player = g\<lparr>master := Some player\<rparr>"

definition is_master :: "SyncGroup \<Rightarrow> pid \<Rightarrow> bool" where
  "is_master g player = (Some player = master g)"

text \<open>
  \<open>self.players.append(player)\<close>, then \<open>if not self.master: self.set_master(player)\<close>
  (a window object is truthy, so the test is \<open>master is None\<close>).
\<close>

definition add_player :: "SyncGroup \<Rightarrow> pid \<Rightarrow> SyncGroup" where
  "add_player g player =
     (let g1 = g\<lparr>players := players g @ [player]\<rparr>
      in if master g1 = None then set_master g1 player else g1)"

text \<open>
  \<open>list.remove\<close> deletes the first occurrence; \<open>self.players[0]\<close> is read only when the
  list is not empty.
\<close>

definition remove_player :: "SyncGroup \<Rightarrow> pid \<Rightarrow> SyncGroup" where
  "remove_player g player =
     (let g1 = (if player \<in> set (players g)
                then g\<lparr>players := remove1 player (players g)\<rparr> else g)
      in if Some player = master g1 \<and> players g1 \<noteq> [] then set_master g1 (players g1 ! 0)
         else if players g1 = [] then g1\<lparr>master := None\<rparr>
         else g1)"

text \<open>A sequence of membership changes applied to a group, in order.\<close>

datatype membership = Add pid | Remove pid

fun change :: "SyncGroup \<Rightarrow> membership \<Rightarrow> SyncGroup" where
  "change g (Add p) = add_player g p"
| "change g (Remove p) = remove_player g p"

definition changes :: "membership list \<Rightarrow> SyncGroup \<Rightarrow> SyncGroup" where
  "changes ops g = foldl change g ops"

text \<open>The invariant of section 3 of the spec: the master is a member, or the group is empty
  and has no master.\<close>

definition master_is_member :: "SyncGroup \<Rightarrow> bool" where
  "master_is_member g =
     (case master g of None \<Rightarrow> players g = [] | Some m \<Rightarrow> m \<in> set (players g))"

section \<open>Viewer windows\<close>

subsection \<open>The Qt widgets a window reads and writes\<close>

text \<open>
  Qt's \<open>QAbstractSlider\<close>: \<open>setValue\<close> bounds the value to the range and emits
  \<open>valueChanged\<close> only when the value changes; \<open>setMaximum(max)\<close> is
  \<open>setRange(qMin(minimum, max), max)\<close>, and a changed range re-bounds the value.
  The second component of a result says whether \<open>valueChanged\<close> was emitted.
\<close>

record QSlider =
  slider_minimum :: int
  slider_maximum :: int
  slider_value :: int

definition bound :: "int \<Rightarrow> int \<Rightarrow> int \<Rightarrow> int" where
  "bound lo hi v = max lo (min hi v)"

definition QSlider_setValue :: "QSlider \<Rightarrow> int \<Rightarrow> QSlider \<times> bool" where
  "QSlider_setValue s v =
     (let v' = bound (slider_minimum s) (slider_maximum s) v
      in if slider_value s = v' then (s, False) else (s\<lparr>slider_value := v'\<rparr>, True))"

definition QSlider_setRange :: "QSlider \<Rightarrow> int \<Rightarrow> int \<Rightarrow> QSlider \<times> bool" where
  "QSlider_setRange s lo hi =
     (let s1 = s\<lparr>slider_minimum := lo, slider_maximum := max lo hi\<rparr>
      in if slider_minimum s \<noteq> slider_minimum s1 \<or> slider_maximum s \<noteq> slider_maximum s1
         then QSlider_setValue s1 (slider_value s1) else (s1, False))"

definition QSlider_setMaximum :: "QSlider \<Rightarrow> int \<Rightarrow> QSlider \<times> bool" where
  "QSlider_setMaximum s hi = QSlider_setRange s (min (slider_minimum s) hi) hi"

text \<open>\<open>QTimer\<close>: stopped, or running with an interval in milliseconds.\<close>

datatype QTimer = Inactive | Active int

subsection \<open>The loader object, as a window holds it\<close>

text \<open>
  The slot a window connects to the loader's \<open>loading_finished\<close> signal. The window
  class has two candidates, \<open>on_loading_finished\<close> and
  \<open>_on_loading_finished_preserve_position\<close>.
\<close>

datatype slot = On_loading_finished | On_loading_finished_preserve_position

record VideoLoaderThread =
  thread_file_path :: string
  thread_current_frame_index :: int
  thread_stopped :: bool
  thread_loading_finished :: "slot option"
  thread_started :: bool

text \<open>\<open>VideoLoaderThread(file_path, start_frame=...)\<close>\<close>

definition new_VideoLoaderThread :: "string \<Rightarrow> int \<Rightarrow> VideoLoaderThread" where
  "new_VideoLoaderThread path start_frame =
     \<lparr>thread_file_path = path, thread_current_frame_index = start_frame,
      thread_stopped = False, thread_loading_finished = None, thread_started = False\<rparr>"

text \<open>\<open>stop\<close> sets the flag and waits for the thread's \<open>run\<close> to return.\<close>

definition thread_stop :: "VideoLoaderThread \<Rightarrow> VideoLoaderThread" where
  "thread_stop t = t\<lparr>thread_stopped := True\<rparr>"

subsection \<open>The window and the world of windows\<close>

text \<open>
  \<open>VideoPlayerWindow\<close>: its playback fields, and the widgets as the values they show.
  \<open>sync_group\<close> says whether the window holds a reference to the application's sync
  group (the application has one \<open>SyncGroup\<close> at a time, \<open>MainApplication.sync_group\<close>).
  \<open>frame_label\<close> is the pair of numbers in \<open>"Frame: i / n"\<close>; \<open>play_button\<close> is true when
  the button shows the pause symbol; \<open>single_shots\<close> counts the pending
  \<open>QTimer.singleShot(100, self._update_after_seek)\<close> calls.
\<close>

record VideoPlayerWindow =
  file_path :: "string option"
  sync_group :: bool
  current_frame :: "frame option"
  current_frame_index :: int
  total_frames :: int
  fps :: int
  playback_speed :: real
  is_playing :: bool
  loader_thread :: "VideoLoaderThread option"
  timer :: QTimer
  window_title :: string
  frame_slider :: QSlider
  fps_spinbox :: int
  frame_label :: "int \<times> int"
  current_frame_display :: int
  total_frames_display :: int
  play_button :: bool
  single_shots :: nat

text \<open>\<open>VideoPlayerWindow.__init__\<close> and \<open>init_ui\<close>, without a file.\<close>

definition new_VideoPlayerWindow :: "bool \<Rightarrow> VideoPlayerWindow" where
  "new_VideoPlayerWindow in_group =
     \<lparr>file_path = None, sync_group = in_group, current_frame = None,
      current_frame_index = 0, total_frames = 0, fps = 30, playback_speed = 1,
      is_playing = False, loader_thread = None, timer = Inactive,
      window_title = ''Video Player'',
      frame_slider = \<lparr>slider_minimum = 0, slider_maximum = 100, slider_value = 0\<rparr>,
      fps_spinbox = 30, frame_label = (0, 0), current_frame_display = 0,
      total_frames_display = 0, play_button = False, single_shots = 0\<rparr>"

record world =
  windows :: "VideoPlayerWindow list"
  group :: SyncGroup

definition window :: "world \<Rightarrow> pid \<Rightarrow> VideoPlayerWindow" where
  "window w p = windows w ! p"

definition update_window :: "world \<Rightarrow> pid \<Rightarrow> (VideoPlayerWindow \<Rightarrow> VideoPlayerWindow) \<Rightarrow> world" where
  "update_window w p f = w\<lparr>windows := (windows w)[p := f (windows w ! p)]\<rparr>"

text \<open>
  A method either returns, leaving a world, or raises, leaving the world as it was at
  the raise. \<open>and_then\<close> is the sequencing of two statements, \<open>for_each\<close> a \<open>for\<close> loop
  over a list of windows.
\<close>

datatype pyerror = ZeroDivisionError | TypeError

datatype outcome = Done world | Raised pyerror world

fun and_then :: "outcome \<Rightarrow> (world \<Rightarrow> outcome) \<Rightarrow> outcome" where
  "and_then (Done w) f = f w"
| "and_then (Raised e w) f = Raised e w"

fun for_each :: "(world \<Rightarrow> pid \<Rightarrow> outcome) \<Rightarrow> pid list \<Rightarrow> world \<Rightarrow> outcome" where
  "for_each f [] w = Done w"
| "for_each f (q # qs) w = and_then (f w q) (for_each f qs)"

fun world_of :: "outcome \<Rightarrow> world" where
  "world_of (Done w) = w"
| "world_of (Raised e w) = w"

subsection \<open>Play and pause\<close>

text \<open>
  \<open>interval = int(1000 / (self.fps * self.playback_speed))\<close>: \<open>fps\<close> is an int and
  \<open>playback_speed\<close> a float, so the product and the quotient are float operations; the
  division raises on zero, and \<open>int\<close> truncates.
\<close>

definition timer_interval :: "int \<Rightarrow> real \<Rightarrow> int option" where
  "timer_interval f speed =
     (let d = fmul (real_of_int f) speed
      in if d = 0 then None else Some (trunc (fdiv 1000 d)))"

text \<open>
  \<open>start_playback\<close> up to its last statement: the flag, the button, the timer.
\<close>

definition start_timer :: "world \<Rightarrow> pid \<Rightarrow> outcome" where
  "start_timer w p =
     (let w1 = update_window w p (\<lambda>v. v\<lparr>is_playing := True, play_button := True\<rparr>)
      in case timer_interval (fps (window w1 p)) (playback_speed (window w1 p)) of
           None \<Rightarrow> Raised ZeroDivisionError w1
         | Some interval \<Rightarrow> Done (update_window w1 p (\<lambda>v. v\<lparr>timer := Active interval\<rparr>)))"

definition stop_timer :: "world \<Rightarrow> pid \<Rightarrow> world" where
  "stop_timer w p =
     update_window w p (\<lambda>v. v\<lparr>is_playing := False, play_button := False, timer := Inactive\<rparr>)"

text \<open>
  \<open>SyncGroup.set_playing\<close> calls \<open>set_sync_playing\<close> only on the players that are not
  the master, so in the \<open>start_playback\<close> and \<open>stop_playback\<close> that \<open>set_sync_playing\<close>
  calls the last test, \<open>self.sync_group.is_master(self)\<close>, is false and nothing is
  passed on. \<open>start_playback_nested\<close> and \<open>stop_playback_nested\<close> are these calls.
\<close>

definition start_playback_nested :: "world \<Rightarrow> pid \<Rightarrow> outcome" where
  "start_playback_nested w p =
     (if loader_thread (window w p) = None then Done w else start_timer w p)"

definition stop_playback_nested :: "world \<Rightarrow> pid \<Rightarrow> outcome" where
  "stop_playback_nested w p = Done (stop_timer w p)"

definition set_sync_playing :: "world \<Rightarrow> pid \<Rightarrow> bool \<Rightarrow> outcome" where
  "set_sync_playing w p playing =
     (if playing \<and> \<not> is_playing (window w p) then start_playback_nested w p
      else if \<not> playing \<and> is_playing (window w p) then stop_playback_nested w p
      else Done w)"

definition set_playing :: "world \<Rightarrow> bool \<Rightarrow> outcome" where
  "set_playing w playing =
     for_each (\<lambda>w player. if \<not> is_master (group w) player
                           then set_sync_playing w player playing else Done w)
              (players (group w)) w"

definition start_playback :: "world \<Rightarrow> pid \<Rightarrow> outcome" where
  "start_playback w p =
     (if loader_thread (window w p) = None then Done w
      else and_then (start_timer w p)
             (\<lambda>w. if sync_group (window w p) \<and> is_master (group w) p
                   then set_playing w True else Done w))"

definition stop_playback :: "world \<Rightarrow> pid \<Rightarrow> outcome" where
  "stop_playback w p =
     (let w1 = stop_timer w p
      in if sync_group (window w1 p) \<and> is_master (group w1) p
         then set_playing w1 False else Done w1)"

subsection \<open>Seeking\<close>

text \<open>
  \<open>_seek_to_frame\<close>: stop the loader, make a new one that starts at the requested
  frame, connect \<open>_on_loading_finished_preserve_position\<close>, start it, set the label and
  the index, and post the delayed \<open>_update_after_seek\<close>. The constructor calls
  \<open>os.path.splitext(file_path)\<close>, which raises on \<open>None\<close>.
\<close>

definition seek_to_frame :: "world \<Rightarrow> pid \<Rightarrow> int \<Rightarrow> outcome" where
  "seek_to_frame w p frame_index =
     (let w1 = update_window w p (\<lambda>v. v\<lparr>loader_thread := map_option thread_stop (loader_thread v)\<rparr>)
      in case file_path (window w1 p) of
           None \<Rightarrow> Raised TypeError w1
         | Some path \<Rightarrow>
             Done (update_window w1 p
               (\<lambda>v. v\<lparr>loader_thread :=
                         Some ((new_VideoLoaderThread path frame_index)
                                 \<lparr>thread_loading_finished :=
                                     Some On_loading_finished_preserve_position,
                                  thread_started := True\<rparr>),
                       frame_label := (frame_index, total_frames v - 1),
                       current_frame_index := frame_index,
                       single_shots := Suc (single_shots v)\<rparr>)))"

text \<open>The three callers of \<open>_seek_to_frame\<close> share: pause if playing, seek, resume.\<close>

definition next_frame :: "world \<Rightarrow> pid \<Rightarrow> outcome" where
  "next_frame w p =
     (if loader_thread (window w p) = None then Done w
      else let was_playing = is_playing (window w p);
               next_frame_index = current_frame_index (window w p) + 1;
               next_frame_index = (if next_frame_index \<ge> total_frames (window w p)
                                   then 0 else next_frame_index)
           in and_then (if was_playing then stop_playback w p else Done w)
                (\<lambda>w. and_then (seek_to_frame w p next_frame_index)
                  (\<lambda>w. if was_playing then start_playback w p else Done w)))"

definition prev_frame :: "world \<Rightarrow> pid \<Rightarrow> outcome" where
  "prev_frame w p =
     (if loader_thread (window w p) = None \<or> current_frame_index (window w p) \<le> 0
      then Done w
      else let was_playing = is_playing (window w p);
               prev_frame_index = current_frame_index (window w p) - 1;
               prev_frame_index = (if prev_frame_index < 0
                                   then total_frames (window w p) - 1 else prev_frame_index)
           in and_then (if was_playing then stop_playback w p else Done w)
                (\<lambda>w. and_then (seek_to_frame w p prev_frame_index)
                  (\<lambda>w. if was_playing then start_playback w p else Done w)))"

definition slider_changed :: "world \<Rightarrow> pid \<Rightarrow> outcome" where
  "slider_changed w p =
     (if loader_thread (window w p) = None \<or> total_frames (window w p) = 0 then Done w
      else let frame_index = slider_value (frame_slider (window w p));
               w1 = update_window w p (\<lambda>v. v\<lparr>current_frame_display := frame_index\<rparr>)
           in if frame_index \<noteq> current_frame_index (window w1 p)
              then let was_playing = is_playing (window w1 p)
                   in and_then (if was_playing then stop_playback w1 p else Done w1)
                        (\<lambda>w. and_then (seek_to_frame w p frame_index)
                          (\<lambda>w. if was_playing then start_playback w p else Done w))
              else Done w1)"

subsection \<open>Sync commands from the master\<close>

text \<open>
  \<open>set_sync_frame\<close>; the resume test reads \<open>self.sync_group.master.is_playing\<close>.
\<close>

definition set_sync_frame :: "world \<Rightarrow> pid \<Rightarrow> int \<Rightarrow> outcome" where
  "set_sync_frame w p frame_index =
     (if loader_thread (window w p) = None \<or> frame_index = current_frame_index (window w p)
      then Done w
      else let was_playing = is_playing (window w p)
           in and_then (if was_playing then stop_playback w p else Done w)
                (\<lambda>w. and_then (seek_to_frame w p frame_index)
                  (\<lambda>w. if was_playing \<and> sync_group (window w p)
                           \<and> (case master (group w) of None \<Rightarrow> False
                               | Some m \<Rightarrow> is_playing (window w m))
                        then start_playback w p else Done w)))"

definition sync_to_frame :: "world \<Rightarrow> int \<Rightarrow> outcome" where
  "sync_to_frame w frame_index =
     for_each (\<lambda>w player. if \<not> is_master (group w) player
                           then set_sync_frame w player frame_index else Done w)
              (players (group w)) w"

subsection \<open>A loaded viewer\<close>

text \<open>
  A window as \<open>load_video\<close> and a seek to frame \<open>i\<close> leave it once the loader has
  reported \<open>n\<close> frames: paused, with a started loader, in the sync group. \<open>viewers\<close> is
  the world of such windows, one per index given, with the group they joined in order.
\<close>

definition viewer_at :: "int \<Rightarrow> int \<Rightarrow> VideoPlayerWindow" where
  "viewer_at n i =
     (new_VideoPlayerWindow True)
       \<lparr>file_path := Some ''clip.mp4'', current_frame_index := i, total_frames := n,
        loader_thread :=
          Some ((new_VideoLoaderThread ''clip.mp4'' i)
                  \<lparr>thread_loading_finished := Some On_loading_finished_preserve_position,
                   thread_started := True\<rparr>),
        window_title := ''Video Player - clip.mp4'',
        frame_slider := \<lparr>slider_minimum = 0, slider_maximum = n - 1, slider_value = i\<rparr>,
        frame_label := (i, n - 1), current_frame_display := i, total_frames_display := n - 1\<rparr>"

definition viewers :: "int \<Rightarrow> int list \<Rightarrow> world" where
  "viewers n positions =
     \<lparr>windows = map (viewer_at n) positions,
      group = changes (map Add [0..<length positions]) new_SyncGroup\<rparr>"

section \<open>The overlay manager\<close>

text \<open>
  \<open>OverlayManager\<close>: the two viewer references (a window or \<open>None\<close>), the blend mode,
  the opacity and the active flag.
\<close>

record OverlayManager =
  main_player :: "pid option"
  overlay_player :: "pid option"
  blend_mode :: string
  opacity :: real
  is_active :: bool

text \<open>
  What \<open>activate\<close> reads and writes: the manager, and the connections from the windows'
  \<open>frame_updated\<close> signals to the manager's \<open>update_overlay\<close>. Qt keeps one connection
  per call of \<open>connect\<close>, so the connections are the list of the windows connected,
  in the order of the calls.
\<close>

record compositor =
  manager :: OverlayManager
  connections :: "pid list"

text \<open>\<open>OverlayManager.__init__\<close>\<close>

definition new_OverlayManager :: OverlayManager where
  "new_OverlayManager =
     \<lparr>main_player = None, overlay_player = None, blend_mode = ''Normal'', opacity = 1/2,
      is_active = False\<rparr>"

definition set_main_player :: "OverlayManager \<Rightarrow> pid \<Rightarrow> OverlayManager" where
  "set_main_player m player = m\<lparr>main_player := Some player\<rparr>"

definition set_overlay_player :: "OverlayManager \<Rightarrow> pid \<Rightarrow> OverlayManager" where
  "set_overlay_player m player = m\<lparr>overlay_player := Some player\<rparr>"

text \<open>
  \<open>self.is_active = True\<close>, then \<open>if self.main_player and self.overlay_player:
  self.main_player.frame_updated.connect(self.update_overlay)\<close>. A window object is
  truthy, so the test is that neither reference is \<open>None\<close>. The method has no other
  statement: it returns \<open>None\<close> and raises nothing.
\<close>

definition activate :: "compositor \<Rightarrow> compositor" where
  "activate c =
     (let c1 = c\<lparr>manager := (manager c)\<lparr>is_active := True\<rparr>\<rparr>
      in case (main_player (manager c1), overlay_player (manager c1)) of
           (Some m, Some ov) \<Rightarrow> c1\<lparr>connections := connections c1 @ [m]\<rparr>
         | _ \<Rightarrow> c1)"

section \<open>Displaying a frame\<close>

text \<open>
  \<open>display_frame\<close> receives an array of dtype uint8 or of a wider dtype. The wider dtypes
  modelled are the unsigned integer ones (uint16, uint32, uint64): an array of
  \<open>LENGTH('a)\<close>-bit words, the dtype being \<open>np.uint8\<close> exactly when \<open>LENGTH('a) = 8\<close>.

  \<open>frame.max()\<close> and \<open>frame.min()\<close> run over all the elements and raise ValueError on an
  array without elements.
\<close>

definition elements :: "'a ndarray \<Rightarrow> 'a list" where
  "elements a = concat (concat (items a))"

definition np_max :: "'a::linorder ndarray \<Rightarrow> error + 'a" where
  "np_max a = (if elements a = [] then Inl ValueError else Inr (Max (set (elements a))))"

definition np_min :: "'a::linorder ndarray \<Rightarrow> error + 'a" where
  "np_min a = (if elements a = [] then Inl ValueError else Inr (Min (set (elements a))))"

text \<open>
  \<open>a / b\<close> on unsigned integers is a float64 division: both operands are converted to
  float64 (rounded, when the integer has more than 53 bits) and divided.
\<close>

definition to_float64 :: "'a::len word \<Rightarrow> real" where
  "to_float64 v = float64 (to_float v)"

text \<open>
  \<open>cv2.cvtColor(frame, cv2.COLOR_GRAY2RGB)\<close> repeats the one value of every pixel three
  times; \<open>cv2.COLOR_RGBA2RGB\<close> keeps the first three values of every pixel and drops
  the fourth. Both raise \<open>cv2.error\<close> on an empty image.
\<close>

definition cvtColor_GRAY2RGB :: "u8 ndarray \<Rightarrow> error + u8 ndarray" where
  "cvtColor_GRAY2RGB a =
     (if height a = 0 \<or> width a = 0 then Inl Cv2Error
      else Inr \<lparr>ndim = 3, height = height a, width = width a, chans = 3,
                items = map (map (\<lambda>p. [hd p, hd p, hd p])) (items a)\<rparr>)"

definition cvtColor_RGBA2RGB :: "u8 ndarray \<Rightarrow> error + u8 ndarray" where
  "cvtColor_RGBA2RGB a =
     (if height a = 0 \<or> width a = 0 then Inl Cv2Error
      else Inr \<lparr>ndim = 3, height = height a, width = width a, chans = 3,
                items = map (map (take 3)) (items a)\<rparr>)"

text \<open>
  \<open>display_frame\<close>, up to the array it hands to \<open>QImage\<close>: the normalisation of a frame
  that is not uint8, \<open>(frame - frame.min()) / (frame.max() - frame.min()) * 255\<close> cut by
  \<open>astype(np.uint8)\<close>, or zeros when all elements are equal; then the conversion to RGB
  by the number of axes and channels. The subtractions are in the frame's own dtype.
  The body is in \<open>try ... except Exception\<close>: when something raises, nothing is shown
  and the result is \<open>None\<close>.
\<close>

definition display_frame :: "'a::len word ndarray \<Rightarrow> u8 ndarray option" where
  "display_frame frame =
     (case then_do
             (if LENGTH('a) \<noteq> 8
              then then_do (np_max frame) (\<lambda>mx. then_do (np_min frame) (\<lambda>mn.
                     if mx \<noteq> mn
                     then Inr (map_array
                                (\<lambda>v. astype_uint8
                                        (fmul (fdiv (to_float64 (v - mn)) (to_float64 (mx - mn))) 255))
                                frame)
                     else Inr (map_array (\<lambda>v. 0) frame)))
              else Inr (map_array ucast frame))
             (\<lambda>frame. if ndim frame = 2 then cvtColor_GRAY2RGB frame
                       else if chans frame = 1 then cvtColor_GRAY2RGB frame
                       else if chans frame = 4 then cvtColor_RGBA2RGB frame
                       else Inr frame)
      of Inl e \<Rightarrow> None | Inr rgb \<Rightarrow> Some rgb)"

text \<open>
  The rescaling as the spec words it, for comparison: an element \<open>v\<close> of a frame with
  minimum \<open>lo\<close> and maximum \<open>hi\<close> is shown as \<open>(v - lo) / (hi - lo) * 255\<close>, the
  differences being those of the integers, the quotient and the product float64
  operations, and the result cut to its integer part; a constant frame is shown as 0,
  and a uint8 frame as it is.
\<close>

definition rescaled :: "'a::len word ndarray \<Rightarrow> 'a word \<Rightarrow> u8" where
  "rescaled frame v =
     (let lo = unat (Min (set (elements frame))); hi = unat (Max (set (elements frame)))
      in if LENGTH('a) = 8 then ucast v
         else if hi = lo then 0
         else astype_uint8 (fmul (fdiv (float64 (real (unat v - lo))) (float64 (real (hi - lo))))
                                 255))"

section \<open>Properties of the compositor\<close>

subsection \<open>Shapes\<close>

lemma aligned_shape_map_array: "aligned_shape (map_array f a) = aligned_shape a"
  by (simp add: aligned_shape_def map_array_def)

lemma ndim_map_array: "ndim (map_array f a) = ndim a"
  by (simp add: map_array_def)

lemma ndim_getitem_slice: "ndim (getitem_slice h w a) = ndim a"
  by (simp add: getitem_slice_def)

lemma ufunc2_raises:
  "\<not> broadcastable (aligned_shape a) (aligned_shape b) \<Longrightarrow> ufunc2 f a b = Inl ValueError"
  by (simp add: ufunc2_def)

lemma ufunc2_returns:
  assumes "ndim a = 2 \<or> ndim a = 3" "ndim b = 2 \<or> ndim b = 3"
    and "broadcastable (aligned_shape a) (aligned_shape b)"
  shows "\<exists>v. ufunc2 f a b = Inr v
           \<and> aligned_shape v = broadcast_shape (aligned_shape a) (aligned_shape b)
           \<and> ndim v = max (ndim a) (ndim b)"
  using assms
  by (auto simp: ufunc2_def Let_def of_aligned_def aligned_shape_def broadcast_shape_def
      broadcast_dim_def)

lemma broadcastable_again:
  "broadcastable s t \<Longrightarrow> broadcastable s (broadcast_shape s t)
     \<and> broadcast_shape s (broadcast_shape s t) = broadcast_shape s t"
  by (cases s; cases t) (auto simp: broadcastable_def broadcast_shape_def broadcast_dim_def)

lemma assignable_broadcast:
  "broadcastable s t \<and> assignable (broadcast_shape s t) s \<longleftrightarrow> assignable t s"
  by (cases s; cases t)
     (auto simp: broadcastable_def broadcast_shape_def broadcast_dim_def assignable_def)

subsection \<open>Slice assignment\<close>

lemma length_overwrite: "length (overwrite h w a x) = length a"
  by (simp add: overwrite_def)

lemma length_overwrite_row: "i < length a \<Longrightarrow> length (overwrite h w a x ! i) = length (a ! i)"
  by (simp add: overwrite_def)

lemma overwrite_outside:
  "i < length a \<Longrightarrow> j < length (a ! i) \<Longrightarrow> h \<le> i \<or> w \<le> j
     \<Longrightarrow> overwrite h w a x ! i ! j = a ! i ! j"
  by (auto simp: overwrite_def)

lemma setitem_slice_returns:
  "setitem_slice h w a v = Inr r \<Longrightarrow> \<exists>x. r = a\<lparr>items := overwrite h w (items a) x\<rparr>"
  by (auto simp: setitem_slice_def Let_def split: if_splits)

lemma setitem_slice_returns_iff:
  "(\<exists>r. setitem_slice h w a v = Inr r)
     \<longleftrightarrow> assignable (aligned_shape v) (aligned_shape (getitem_slice h w a))"
  by (simp add: setitem_slice_def Let_def)

subsection \<open>The branches of \<open>blend_frames\<close>\<close>

lemma blend_value:
  assumes "ndim a = 2 \<or> ndim a = 3" "ndim b = 2 \<or> ndim b = 3"
    and "F \<in> {blend_normal, blend_add, blend_multiply, blend_screen, blend_difference}"
  shows "if broadcastable (aligned_shape a) (aligned_shape b)
         then \<exists>v. F alpha a b = Inr v
                  \<and> aligned_shape v = broadcast_shape (aligned_shape a) (aligned_shape b)
         else F alpha a b = Inl ValueError"
proof (cases "broadcastable (aligned_shape a) (aligned_shape b)")
  case False
  with assms(3) show ?thesis
    by (auto simp: blend_normal_def blend_add_def blend_multiply_def blend_screen_def
        blend_difference_def then_do_def Let_def ufunc2_raises aligned_shape_map_array)
next
  case True
  have one: "\<exists>v. ufunc2 f (map_array g a) (map_array g' b) = Inr v
           \<and> aligned_shape v = broadcast_shape (aligned_shape a) (aligned_shape b)"
    for f :: "real \<Rightarrow> real \<Rightarrow> real" and g g' :: "u8 \<Rightarrow> real"
    using ufunc2_returns [of "map_array g a" "map_array g' b" f] assms(1,2) True
    by (auto simp: aligned_shape_map_array ndim_map_array)
  have two: "\<exists>v. ufunc2 f (map_array g (map_array k a)) (map_array g' (map_array k' b)) = Inr v
           \<and> aligned_shape v = broadcast_shape (aligned_shape a) (aligned_shape b)"
    for f :: "real \<Rightarrow> real \<Rightarrow> real" and g g' :: "u8 \<Rightarrow> real" and k k' :: "u8 \<Rightarrow> u8"
    using ufunc2_returns [of "map_array g (map_array k a)" "map_array g' (map_array k' b)" f]
      assms(1,2) True
    by (auto simp: aligned_shape_map_array ndim_map_array)
  from ufunc2_returns [OF assms(1,2) True, of "\<lambda>x y. x - y"] obtain d where
    d: "ufunc2 (\<lambda>x y. x - y) a b = Inr d"
       "aligned_shape d = broadcast_shape (aligned_shape a) (aligned_shape b)"
       "ndim d = max (ndim a) (ndim b)"
    by blast
  have nd: "ndim d = 2 \<or> ndim d = 3"
    using d(3) assms(1,2) by auto
  have three: "\<exists>v. ufunc2 f (map_array g a) (map_array g' d) = Inr v
           \<and> aligned_shape v = broadcast_shape (aligned_shape a) (aligned_shape b)"
    for f :: "real \<Rightarrow> real \<Rightarrow> real" and g g' :: "u8 \<Rightarrow> real"
    using ufunc2_returns [of "map_array g a" "map_array g' d" f] assms(1) nd
      broadcastable_again [OF True] d(2)
    by (auto simp: aligned_shape_map_array ndim_map_array)
  from assms(3) consider "F = blend_normal" | "F = blend_add" | "F = blend_multiply"
    | "F = blend_screen" | "F = blend_difference"
    by blast
  then show ?thesis
  proof cases
    case 1
    from one obtain v where "ufunc2 fadd (map_array (\<lambda>x. fmul (fsub 1 alpha) (to_float x)) a)
        (map_array (\<lambda>x. fmul alpha (to_float x)) b) = Inr v"
      "aligned_shape v = broadcast_shape (aligned_shape a) (aligned_shape b)"
      by blast
    with 1 True show ?thesis
      by (simp add: blend_normal_def then_do_def aligned_shape_map_array)
  next
    case 2
    from one obtain v where "ufunc2 fadd (map_array to_float a)
        (map_array (\<lambda>x. fmul (to_float x) alpha) b) = Inr v"
      "aligned_shape v = broadcast_shape (aligned_shape a) (aligned_shape b)"
      by blast
    with 2 True show ?thesis
      by (simp add: blend_add_def then_do_def aligned_shape_map_array)
  next
    case 3
    from one obtain v where "ufunc2 fmul (map_array to_float a)
        (map_array (\<lambda>x. fadd (fsub 1 alpha) (fdiv (fmul alpha (to_float x)) 255)) b) = Inr v"
      "aligned_shape v = broadcast_shape (aligned_shape a) (aligned_shape b)"
      by blast
    with 3 True show ?thesis
      by (simp add: blend_multiply_def then_do_def aligned_shape_map_array)
  next
    case 4
    from two obtain v where "ufunc2 fmul (map_array to_float (map_array (\<lambda>x. 255 - x) a))
        (map_array (\<lambda>x. fadd (fsub 1 alpha) (fdiv (fmul alpha (to_float x)) 255))
           (map_array (\<lambda>x. 255 - x) b)) = Inr v"
      "aligned_shape v = broadcast_shape (aligned_shape a) (aligned_shape b)"
      by blast
    with 4 True show ?thesis
      by (simp add: blend_screen_def then_do_def aligned_shape_map_array Let_def)
  next
    case 5
    from three obtain v where "ufunc2 fadd (map_array (\<lambda>x. fmul (to_float x) (fsub 1 alpha)) a)
        (map_array (\<lambda>x. fmul (to_float x) alpha) d) = Inr v"
      "aligned_shape v = broadcast_shape (aligned_shape a) (aligned_shape b)"
      by blast
    with 5 True d(1) show ?thesis
      by (simp add: blend_difference_def then_do_def aligned_shape_map_array)
  qed
qed

lemma blend_frames_unknown:
  assumes "mode \<notin> set blend_modes"
  shows "blend_frames h main_frame overlay_frame mode alpha
           = (Inr (length h), h @ [h ! main_frame])"
  using assms by (simp add: blend_frames_def np_copy_def blend_modes_def shape2_def)

lemma blend_frames_known:
  assumes "mode \<in> set blend_modes" "main_frame < length h" "overlay_frame < length h"
  shows "\<exists>F\<in>{blend_normal, blend_add, blend_multiply, blend_screen, blend_difference}.
           blend_frames h main_frame overlay_frame mode alpha
           = blend_region (h @ [h ! main_frame]) (length h)
               (min (height (h ! main_frame)) (height (h ! overlay_frame)))
               (min (width (h ! main_frame)) (width (h ! overlay_frame)))
               (F alpha
                  (getitem_slice (min (height (h ! main_frame)) (height (h ! overlay_frame)))
                     (min (width (h ! main_frame)) (width (h ! overlay_frame))) (h ! main_frame))
                  (getitem_slice (min (height (h ! main_frame)) (height (h ! overlay_frame)))
                     (min (width (h ! main_frame)) (width (h ! overlay_frame)))
                     (h ! overlay_frame)))"
proof -
  have m: "(h @ [h ! main_frame]) ! main_frame = h ! main_frame"
    and ov: "(h @ [h ! main_frame]) ! overlay_frame = h ! overlay_frame"
    using assms(2,3) by (simp_all add: nth_append)
  from assms(1) consider "mode = ''Normal''" | "mode = ''Add''"
    | "mode = ''Multiply''" | "mode = ''Screen''" | "mode = ''Difference''"
    unfolding blend_modes_def by fastforce
  then show ?thesis
  proof cases
    case 1 then show ?thesis
      by (intro bexI [of _ blend_normal])
         (simp_all add: blend_frames_def np_copy_def shape2_def m ov Let_def)
  next
    case 2 then show ?thesis
      by (intro bexI [of _ blend_add])
         (simp_all add: blend_frames_def np_copy_def shape2_def m ov Let_def)
  next
    case 3 then show ?thesis
      by (intro bexI [of _ blend_multiply])
         (simp_all add: blend_frames_def np_copy_def shape2_def m ov Let_def)
  next
    case 4 then show ?thesis
      by (intro bexI [of _ blend_screen])
         (simp_all add: blend_frames_def np_copy_def shape2_def m ov Let_def)
  next
    case 5 then show ?thesis
      by (intro bexI [of _ blend_difference])
         (simp_all add: blend_frames_def np_copy_def shape2_def m ov Let_def)
  qed
qed

text \<open>Every call leaves the arrays that existed before it as they were.\<close>

lemma blend_region_old_arrays:
  "a < length h \<Longrightarrow> snd (blend_region (h @ [m]) (length h) vh vw value) ! a = h ! a"
  by (simp add: blend_region_def nth_append split: sum.splits)

lemma blend_frames_old_arrays:
  assumes "main_frame < length h" "overlay_frame < length h" "a < length h"
  shows "snd (blend_frames h main_frame overlay_frame mode alpha) ! a = h ! a"
proof (cases "mode \<in> set blend_modes")
  case True
  from blend_frames_known [OF True assms(1,2), of alpha] obtain val where
    "blend_frames h main_frame overlay_frame mode alpha
       = blend_region (h @ [h ! main_frame]) (length h)
           (min (height (h ! main_frame)) (height (h ! overlay_frame)))
           (min (width (h ! main_frame)) (width (h ! overlay_frame))) val"
    by blast
  then show ?thesis
    using assms(3) by (simp add: blend_region_old_arrays)
next
  case False
  then show ?thesis
    using assms(3) by (simp add: blend_frames_unknown nth_append)
qed

lemma blend_region_returned:
  assumes "returned (blend_region (h @ [m]) (length h) vh vw val) = Some r"
  shows "\<exists>x. r = m\<lparr>items := overwrite vh vw (items m) x\<rparr>"
proof -
  from assms obtain a where a: "then_do val (setitem_slice vh vw m) = Inr a" and r: "r = a"
    by (auto simp: blend_region_def returned_def split: sum.splits)
  from a obtain v where "setitem_slice vh vw m v = Inr a"
    by (auto simp: then_do_def split: sum.splits)
  from setitem_slice_returns [OF this] r show ?thesis by simp
qed

lemma blend_region_returns_iff:
  "returned (blend_region (h @ [m]) (length h) vh vw val) \<noteq> None
     \<longleftrightarrow> (\<exists>v. val = Inr v
              \<and> assignable (aligned_shape v) (aligned_shape (getitem_slice vh vw m)))"
proof (cases val)
  case (Inl e)
  then show ?thesis by (simp add: blend_region_def returned_def then_do_def)
next
  case (Inr v)
  show ?thesis
    using setitem_slice_returns_iff [of vh vw m v]
    by (cases "setitem_slice vh vw m v")
       (auto simp: Inr blend_region_def returned_def then_do_def)
qed

lemma well_formed_ndim: "well_formed a \<Longrightarrow> ndim a = 2 \<or> ndim a = 3"
  by (auto simp: well_formed_def)

lemma well_formed_rows:
  "well_formed a \<Longrightarrow> length (items a) = height a
     \<and> (\<forall>i<height a. length (items a ! i) = width a)"
  by (simp add: well_formed_def list_all_length)

lemmas blend_eval =
  returned_def blend_frames_def np_copy_def shape2_def getitem_slice_def map_array_def
  aligned_shape_def aligned_items_def of_aligned_def broadcastable_def broadcast_dim_def
  broadcast_shape_def stretch_def broadcast_to_def ufunc2_def then_do_def assignable_def
  overwrite_def setitem_slice_def blend_region_def array2_def array3_def Let_def
  blend_normal_def blend_add_def blend_multiply_def blend_screen_def blend_difference_def

subsection \<open>The worked example: main 100, overlay 200, alpha 0.5\<close>

lemma to_float_bytes:
  "to_float (100 :: u8) = 100" "to_float (200 :: u8) = 200" "to_float (155 :: u8) = 155"
  "to_float (55 :: u8) = 55" "to_float (- 100 :: u8) = 156"
  by code_simp+

lemma normal_value:
  "astype_uint8 (fadd (fmul (fsub 1 (1/2)) 100) (fmul (1/2) 200)) = 150"
  by code_simp

lemma add_value:
  "astype_uint8 (np_clip (fadd 100 (fmul 200 (1/2))) 0 255) = 200"
  by code_simp

lemma multiply_value:
  "astype_uint8 (np_clip (fmul 100 (fadd (fsub 1 (1/2)) (fdiv (fmul (1/2) 200) 255))) 0 255)
     = 89"
  by code_simp

lemma screen_value:
  "astype_uint8 (np_clip (fsub 255 (fmul 155 (fadd (fsub 1 (1/2)) (fdiv (fmul (1/2) 55) 255))))
                   0 255) = 160"
  by code_simp

lemma difference_value:
  "astype_uint8 (fadd (fmul 100 (fsub 1 (1/2))) (fmul 156 (1/2))) = 128"
  by code_simp

lemmas example_values =
  to_float_bytes normal_value add_value multiply_value screen_value difference_value

text \<open>
  C1, as the code computes it. On the 1x1 arrays \<open>[[100]]\<close> and \<open>[[200]]\<close> at alpha 0.5,
  \<open>blend_frames\<close> returns 150 for Normal, 200 for Add, 89 for Multiply and 160 for Screen.
  The last two are the values of the stated formulas, \<open>100 * (1 - 0.5 + 0.5 * 200 / 255)\<close>
  = 89.2... and \<open>255 - 155 * (1 - 0.5 + 0.5 * 55 / 255)\<close> = 160.7..., cut to their integer
  parts: \<open>astype(np.uint8)\<close> truncates, it does not round to the nearest integer.
\<close>

theorem blend_frames_example_values:
  "returned (blend_frames [array2 [[100]], array2 [[200]]] 0 1 ''Normal'' (1/2))
     = Some (array2 [[150]])
   \<and> returned (blend_frames [array2 [[100]], array2 [[200]]] 0 1 ''Add'' (1/2))
       = Some (array2 [[200]])
   \<and> returned (blend_frames [array2 [[100]], array2 [[200]]] 0 1 ''Multiply'' (1/2))
       = Some (array2 [[89]])
   \<and> returned (blend_frames [array2 [[100]], array2 [[200]]] 0 1 ''Screen'' (1/2))
       = Some (array2 [[160]])
   \<and> trunc (100 * (1 - 1/2 + 1/2 * 200 / 255)) = 89
   \<and> trunc (255 - 155 * (1 - 1/2 + 1/2 * 55 / 255)) = 160"
  by (simp add: blend_eval example_values trunc_def)

text \<open>
  The claim as the spec states it fails on the same input: Multiply yields 89 and not a
  value near 128, Screen yields 160 and not a value near 216 (nor 161, the nearest integer
  to 160.78), and Difference yields 128 and not 100, because the byte subtraction
  \<open>100 - 200\<close> wraps to 156.
\<close>

theorem blend_frames_example_counterexample:
  "returned (blend_frames [array2 [[100]], array2 [[200]]] 0 1 ''Multiply'' (1/2))
     = Some (array2 [[89]])
   \<and> returned (blend_frames [array2 [[100]], array2 [[200]]] 0 1 ''Screen'' (1/2))
       = Some (array2 [[160]])
   \<and> returned (blend_frames [array2 [[100]], array2 [[200]]] 0 1 ''Difference'' (1/2))
       = Some (array2 [[128]])
   \<and> round (255 - 155 * (1 - 1/2 + 1/2 * 55 / 255) :: real) = 161"
  by (simp add: blend_eval example_values round_def)

subsection \<open>Pixels outside the overlap\<close>

text \<open>
  C8. For every main frame and overlay frame (of two or three axes each, the overlay
  smaller or not), every blend mode string and every alpha: \<open>blend_frames\<close> returns
  an array exactly when the mode is not one of the five or the overlay's visible part
  broadcasts to the overlap (\<open>fits\<close>; otherwise numpy raises ValueError); and whatever
  array it returns has the main frame's shape, and every cell of it at a row index
  \<open>\<ge> min main_h overlay_h\<close> or a column index \<open>\<ge> min main_w overlay_w\<close> is the main
  frame's cell.
\<close>

theorem blend_frames_outside_overlap_unchanged:
  assumes "main_frame < length h" "overlay_frame < length h"
    and "well_formed (h ! main_frame)" "well_formed (h ! overlay_frame)"
  shows "(returned (blend_frames h main_frame overlay_frame mode alpha) \<noteq> None
            \<longleftrightarrow> mode \<notin> set blend_modes \<or> fits (h ! main_frame) (h ! overlay_frame))
         \<and> (\<forall>r. returned (blend_frames h main_frame overlay_frame mode alpha) = Some r
               \<longrightarrow> ndim r = ndim (h ! main_frame) \<and> height r = height (h ! main_frame)
                   \<and> width r = width (h ! main_frame) \<and> chans r = chans (h ! main_frame)
                   \<and> length (items r) = height (h ! main_frame)
                   \<and> (\<forall>i<height (h ! main_frame).
                         length (items r ! i) = width (h ! main_frame)
                         \<and> (\<forall>j<width (h ! main_frame).
                               (min (height (h ! main_frame)) (height (h ! overlay_frame)) \<le> i
                                \<or> min (width (h ! main_frame)) (width (h ! overlay_frame)) \<le> j)
                               \<longrightarrow> items r ! i ! j = items (h ! main_frame) ! i ! j)))"
proof (cases "mode \<in> set blend_modes")
  case False
  then show ?thesis
    using well_formed_rows [OF assms(3)]
    by (simp add: blend_frames_unknown returned_def)
next
  case True
  define m where "m = h ! main_frame"
  define ov where "ov = h ! overlay_frame"
  define vh where "vh = min (height m) (height ov)"
  define vw where "vw = min (width m) (width ov)"
  define rg where "rg = getitem_slice vh vw m"
  define og where "og = getitem_slice vh vw ov"
  from blend_frames_known [OF True assms(1,2), of alpha] obtain F where
    F: "F \<in> {blend_normal, blend_add, blend_multiply, blend_screen, blend_difference}"
    and eq: "blend_frames h main_frame overlay_frame mode alpha
          = blend_region (h @ [m]) (length h) vh vw (F alpha rg og)"
    unfolding m_def ov_def vh_def vw_def rg_def og_def by blast
  have nd: "ndim rg = 2 \<or> ndim rg = 3" "ndim og = 2 \<or> ndim og = 3"
    using well_formed_ndim [OF assms(3)] well_formed_ndim [OF assms(4)]
    by (simp_all add: rg_def og_def m_def ov_def ndim_getitem_slice)
  have fits: "fits m ov \<longleftrightarrow> assignable (aligned_shape og) (aligned_shape rg)"
    by (simp add: fits_def Let_def rg_def og_def vh_def vw_def)
  have key: "returned (blend_region (h @ [m]) (length h) vh vw (F alpha rg og)) \<noteq> None
      \<longleftrightarrow> (\<exists>v. F alpha rg og = Inr v \<and> assignable (aligned_shape v) (aligned_shape rg))"
    unfolding rg_def by (rule blend_region_returns_iff)
  have returns: "returned (blend_region (h @ [m]) (length h) vh vw (F alpha rg og)) \<noteq> None
                   \<longleftrightarrow> fits m ov"
  proof (cases "broadcastable (aligned_shape rg) (aligned_shape og)")
    case False
    with blend_value [OF nd F, of alpha] have "F alpha rg og = Inl ValueError" by simp
    moreover from False have "\<not> fits m ov"
      using assignable_broadcast [of "aligned_shape rg" "aligned_shape og"] fits by blast
    ultimately show ?thesis using key by simp
  next
    case b: True
    with blend_value [OF nd F, of alpha] obtain v where
      v: "F alpha rg og = Inr v"
         "aligned_shape v = broadcast_shape (aligned_shape rg) (aligned_shape og)"
      by auto
    show ?thesis
      using assignable_broadcast [of "aligned_shape rg" "aligned_shape og"] b key v fits
      by simp
  qed
  have frame: "ndim r = ndim m \<and> height r = height m \<and> width r = width m \<and> chans r = chans m
         \<and> length (items r) = height m
         \<and> (\<forall>i<height m. length (items r ! i) = width m
               \<and> (\<forall>j<width m. (vh \<le> i \<or> vw \<le> j) \<longrightarrow> items r ! i ! j = items m ! i ! j))"
    if "returned (blend_region (h @ [m]) (length h) vh vw (F alpha rg og)) = Some r" for r
  proof -
    from blend_region_returned [OF that] obtain x where
      r: "r = m\<lparr>items := overwrite vh vw (items m) x\<rparr>" ..
    from well_formed_rows [OF assms(3)] have
      rows: "length (items m) = height m" "\<forall>i<height m. length (items m ! i) = width m"
      by (simp_all add: m_def)
    show ?thesis
      using rows
      by (simp add: r length_overwrite length_overwrite_row overwrite_outside)
  qed
  from True returns frame show ?thesis
    unfolding eq m_def [symmetric] ov_def [symmetric] vh_def [symmetric] vw_def [symmetric]
    by blast
qed

subsection \<open>Unknown modes, and the main frame is never written\<close>

text \<open>
  C10. With a blend mode that is none of Normal, Add, Multiply, Screen, Difference,
  \<open>blend_frames\<close> returns an array equal to the main frame; and with every mode, known
  or not, whether the call returns or raises, every array that existed before the call
  (the main frame among them) holds the values it held: the call writes only into the
  copy it allocates.
\<close>

theorem blend_frames_unknown_mode_is_copy:
  assumes "main_frame < length h" "overlay_frame < length h"
  shows "(mode \<notin> set blend_modes \<longrightarrow>
            returned (blend_frames h main_frame overlay_frame mode alpha)
              = Some (h ! main_frame))
         \<and> (\<forall>a<length h.
               snd (blend_frames h main_frame overlay_frame mode alpha) ! a = h ! a)"
  using assms
  by (simp add: blend_frames_unknown returned_def blend_frames_old_arrays)

theorem blend_frames_unknown_mode_witness:
  "returned (blend_frames [array2 [[100]], array2 [[200]]] 0 1 ''Overlay'' (1/2))
     = Some (array2 [[100]])
   \<and> snd (blend_frames [array2 [[100]], array2 [[200]]] 0 1 ''Overlay'' (1/2)) ! 0
       = array2 [[100]]
   \<and> snd (blend_frames [array2 [[100]], array2 [[200]]] 0 1 ''Difference'' (1/2)) ! 0
       = array2 [[100]]"
  using blend_frames_unknown_mode_is_copy [of 0 "[array2 [[100]], array2 [[200]]]" 1 "''Overlay''" "1/2"]
    blend_frames_unknown_mode_is_copy [of 0 "[array2 [[100]], array2 [[200]]]" 1 "''Difference''" "1/2"]
  by (simp add: blend_modes_def)

text \<open>
  The spec's example, a 10x10 main frame under a 4x4 overlay: the call returns and the
  cells at row or column 4 and beyond are the main frame's. Under the same overlay of two
  axes a 10x10 RGB main frame makes the call raise: aligned at the last axis, the
  overlay's 4 columns meet the 3 channels.
\<close>

theorem blend_frames_outside_overlap_witness:
  "(\<exists>r. returned (blend_frames [array2 (replicate 10 (replicate 10 100)),
                                 array2 (replicate 4 (replicate 4 200))]
                    0 1 ''Screen'' (1/2)) = Some r
        \<and> height r = 10 \<and> width r = 10
        \<and> items r ! 0 ! 4 = [100] \<and> items r ! 4 ! 0 = [100] \<and> items r ! 9 ! 9 = [100])
   \<and> returned (blend_frames [array3 (replicate 10 (replicate 10 [1, 2, 3])),
                              array2 (replicate 4 (replicate 4 200))]
                 0 1 ''Screen'' (1/2)) = None"
proof -
  let ?m = "array2 (replicate 10 (replicate 10 (100::u8)))"
  let ?c = "array3 (replicate 10 (replicate 10 [1, 2, 3::u8]))"
  let ?ov = "array2 (replicate 4 (replicate 4 (200::u8)))"
  have rows: "replicate 10 x = x # replicate 9 x" "replicate 4 x = x # replicate 3 x" for x :: 'a
    by (simp_all add: numeral_eq_Suc)
  have dims: "height ?m = 10" "width ?m = 10" "height ?ov = 4" "width ?ov = 4"
    "height ?c = 10" "width ?c = 10" "chans ?c = 3"
    "ndim ?m = 2" "ndim ?ov = 2" "ndim ?c = 3"
    by (simp_all add: array2_def array3_def rows)
  have wf: "well_formed ?m" "well_formed ?ov" "well_formed ?c"
    by (simp_all add: well_formed_def array2_def array3_def list_all_iff rows)
  have fits: "fits ?m ?ov" "\<not> fits ?c ?ov"
    by (simp_all add: fits_def Let_def dims getitem_slice_def aligned_shape_def assignable_def)
  have modes: "''Screen'' \<in> set blend_modes"
    by (simp add: blend_modes_def)
  note inst = blend_frames_outside_overlap_unchanged [of 0 "[?m, ?ov]" 1 "''Screen''" "1/2"]
  from inst fits(1) wf(1,2) obtain r where
    r: "returned (blend_frames [?m, ?ov] 0 1 ''Screen'' (1/2)) = Some r"
    by auto
  with inst wf(1,2) have
    "height r = 10" "width r = 10"
    "\<forall>i<10. \<forall>j<10. (4 \<le> i \<or> 4 \<le> j) \<longrightarrow> items r ! i ! j = items ?m ! i ! j"
    by (simp_all add: dims)
  moreover have "items ?m ! 0 ! 4 = [100]" "items ?m ! 4 ! 0 = [100]" "items ?m ! 9 ! 9 = [100]"
    by (simp_all add: array2_def)
  ultimately have a: "height r = 10 \<and> width r = 10
        \<and> items r ! 0 ! 4 = [100] \<and> items r ! 4 ! 0 = [100] \<and> items r ! 9 ! 9 = [100]"
    by simp
  from blend_frames_outside_overlap_unchanged [of 0 "[?c, ?ov]" 1 "''Screen''" "1/2"]
    fits(2) wf(2,3) modes
  have b: "returned (blend_frames [?c, ?ov] 0 1 ''Screen'' (1/2)) = None"
    by simp
  from r a b show ?thesis by blast
qed

section \<open>Properties of the sync group\<close>

lemma master_is_member_new: "master_is_member new_SyncGroup"
  by (simp add: master_is_member_def new_SyncGroup_def)

lemma master_is_member_add: "master_is_member g \<Longrightarrow> master_is_member (add_player g p)"
  by (auto simp: master_is_member_def add_player_def set_master_def Let_def
      split: option.splits)

lemma master_is_member_remove: "master_is_member g \<Longrightarrow> master_is_member (remove_player g p)"
  by (auto simp: master_is_member_def remove_player_def set_master_def Let_def
      hd_conv_nth [symmetric] split: option.splits if_splits)

lemma master_is_member_changes: "master_is_member g \<Longrightarrow> master_is_member (changes ops g)"
  unfolding changes_def
proof (induction ops arbitrary: g)
  case Nil
  then show ?case by simp
next
  case (Cons x xs)
  then show ?case
    by (cases x) (simp_all add: master_is_member_add master_is_member_remove)
qed

lemma remove_player_promotes:
  assumes "master g = Some p" "remove1 p (players g) \<noteq> []"
  shows "master (remove_player g p) = Some (remove1 p (players g) ! 0)
         \<and> players (remove_player g p) = remove1 p (players g)"
  using assms by (auto simp: remove_player_def set_master_def Let_def remove1_idem)

lemma remove_player_last:
  assumes "remove1 p (players g) = []"
  shows "master (remove_player g p) = None \<and> players (remove_player g p) = []"
  using assms
  by (cases "p \<in> set (players g)")
     (auto simp: remove_player_def set_master_def Let_def remove1_idem)

lemma remove1_nonempty:
  assumes "2 \<le> length xs"
  shows "remove1 p xs \<noteq> []"
proof
  assume "remove1 p xs = []"
  then have "length (remove1 p xs) = 0" by simp
  moreover have "length xs - 1 \<le> length (remove1 p xs)"
    by (cases "p \<in> set xs") (simp_all add: length_remove1 remove1_idem)
  ultimately show False using assms by simp
qed

text \<open>
  C5. (1) Removing the master \<open>p\<close> of a group with at least two members leaves the other
  members in their insertion order and makes the first of them the master. (2) Removing
  the last member empties the group and clears the master. (3) A viewer added to a group
  without a master becomes its master. (4) After any sequence of \<open>add_player\<close> and
  \<open>remove_player\<close> calls on a new group, a non-empty group has a master, and the master is
  one of its members.
\<close>

theorem master_promotion:
  "(master g = Some p \<and> 2 \<le> length (players g) \<longrightarrow>
       master (remove_player g p) = Some (remove1 p (players g) ! 0)
       \<and> players (remove_player g p) = remove1 p (players g))
   \<and> (remove1 p (players g) = [] \<longrightarrow>
       master (remove_player g p) = None \<and> players (remove_player g p) = [])
   \<and> (master g = None \<longrightarrow> master (add_player g p) = Some p)
   \<and> (players (changes ops new_SyncGroup) \<noteq> [] \<longrightarrow>
       (\<exists>m. master (changes ops new_SyncGroup) = Some m
            \<and> m \<in> set (players (changes ops new_SyncGroup))))"
proof -
  have 1: "master (remove_player g p) = Some (remove1 p (players g) ! 0)
         \<and> players (remove_player g p) = remove1 p (players g)"
    if "master g = Some p \<and> 2 \<le> length (players g)"
    using that by (intro remove_player_promotes) (simp_all add: remove1_nonempty)
  have 2: "master (remove_player g p) = None \<and> players (remove_player g p) = []"
    if "remove1 p (players g) = []"
    using that by (rule remove_player_last)
  have 3: "master (add_player g p) = Some p" if "master g = None"
    using that by (simp add: add_player_def set_master_def)
  have "master_is_member (changes ops new_SyncGroup)"
    by (rule master_is_member_changes [OF master_is_member_new])
  then have 4: "\<exists>m. master (changes ops new_SyncGroup) = Some m
            \<and> m \<in> set (players (changes ops new_SyncGroup))"
    if "players (changes ops new_SyncGroup) \<noteq> []"
    using that by (auto simp: master_is_member_def split: option.splits)
  from 1 2 3 4 show ?thesis by blast
qed

text \<open>Three viewers 1, 2, 3 join in that order; 1 is the master and is removed.\<close>

theorem master_promotion_witness:
  "master (remove_player (changes [Add 1, Add 2, Add 3] new_SyncGroup) 1) = Some 2
   \<and> players (remove_player (changes [Add 1, Add 2, Add 3] new_SyncGroup) 1) = [2, 3]
   \<and> master (remove_player (changes [Add 1] new_SyncGroup) 1) = None
   \<and> master (add_player new_SyncGroup 1) = Some 1
   \<and> (\<exists>m. master (changes [Add 1, Add 2, Remove 1] new_SyncGroup) = Some m
          \<and> m \<in> set (players (changes [Add 1, Add 2, Remove 1] new_SyncGroup)))"
proof -
  let ?g = "changes [Add 1, Add 2, Add 3] new_SyncGroup"
  have g: "?g = \<lparr>players = [1, 2, 3], master = Some 1\<rparr>"
    by (simp add: changes_def add_player_def set_master_def new_SyncGroup_def)
  have g1: "changes [Add 1] new_SyncGroup = \<lparr>players = [1], master = Some 1\<rparr>"
    by (simp add: changes_def add_player_def set_master_def new_SyncGroup_def)
  have ne: "players (changes [Add 1, Add 2, Remove 1] new_SyncGroup) \<noteq> []"
    by (simp add: changes_def add_player_def remove_player_def set_master_def new_SyncGroup_def)
  from master_promotion [of ?g 1 "[]"] g
  have a: "master (remove_player ?g 1) = Some 2 \<and> players (remove_player ?g 1) = [2, 3]"
    by simp
  from master_promotion [of "changes [Add 1] new_SyncGroup" 1 "[]"] g1
  have b: "master (remove_player (changes [Add 1] new_SyncGroup) 1) = None"
    by simp
  from master_promotion [of new_SyncGroup 1 "[]"]
  have c: "master (add_player new_SyncGroup 1) = Some 1"
    by (simp add: new_SyncGroup_def)
  from master_promotion [of new_SyncGroup 1 "[Add 1, Add 2, Remove 1]"] ne
  have d: "\<exists>m. master (changes [Add 1, Add 2, Remove 1] new_SyncGroup) = Some m
          \<and> m \<in> set (players (changes [Add 1, Add 2, Remove 1] new_SyncGroup))"
    by blast
  from a b c d show ?thesis by blast
qed

section \<open>Properties of the viewer windows\<close>

subsection \<open>Which windows a method writes\<close>

lemma window_update_window_other: "q \<noteq> p \<Longrightarrow> window (update_window w q f) p = window w p"
  by (simp add: window_def update_window_def)

lemma group_update_window: "group (update_window w q f) = group w"
  by (simp add: update_window_def)

lemma start_timer_other:
  "q \<noteq> p \<Longrightarrow> window (world_of (start_timer w q)) p = window w p"
  "group (world_of (start_timer w q)) = group w"
  by (simp_all add: start_timer_def Let_def window_update_window_other group_update_window
      split: option.splits)

lemma stop_timer_other:
  "q \<noteq> p \<Longrightarrow> window (stop_timer w q) p = window w p"
  "group (stop_timer w q) = group w"
  by (simp_all add: stop_timer_def window_update_window_other group_update_window)

lemma seek_to_frame_other:
  "q \<noteq> p \<Longrightarrow> window (world_of (seek_to_frame w q x)) p = window w p"
  "group (world_of (seek_to_frame w q x)) = group w"
  by (simp_all add: seek_to_frame_def Let_def window_update_window_other group_update_window
      split: option.splits)

lemma world_of_and_then_cases:
  "(\<exists>w'. r = Done w' \<and> world_of (and_then r f) = world_of (f w'))
   \<or> (\<exists>e w'. r = Raised e w' \<and> world_of (and_then r f) = w')"
  by (cases r) simp_all

lemma stop_playback_follower:
  assumes "\<not> is_master (group w) q"
  shows "stop_playback w q = Done (stop_timer w q)"
  using assms by (simp add: stop_playback_def Let_def stop_timer_other)

lemma start_playback_follower:
  assumes "\<not> is_master (group w) q"
  shows "start_playback w q = start_playback_nested w q"
proof (cases "start_timer w q")
  case (Done w')
  then have "group w' = group w"
    using start_timer_other(2) [of w q] by simp
  with assms Done show ?thesis
    by (simp add: start_playback_def start_playback_nested_def)
next
  case (Raised e w')
  then show ?thesis
    by (simp add: start_playback_def start_playback_nested_def)
qed

lemma set_sync_frame_other:
  assumes "\<not> is_master (group w) q" "q \<noteq> p"
  shows "window (world_of (set_sync_frame w q x)) p = window w p
         \<and> group (world_of (set_sync_frame w q x)) = group w"
proof -
  define w1 where "w1 = (if is_playing (window w q) then stop_timer w q else w)"
  have w1: "window w1 p = window w p" "group w1 = group w"
    using assms(2) by (simp_all add: w1_def stop_timer_other)
  have first: "(if is_playing (window w q) then stop_playback w q else Done w) = Done w1"
    using assms(1) by (simp add: w1_def stop_playback_follower)
  define w2 where "w2 = world_of (seek_to_frame w1 q x)"
  have w2: "window w2 p = window w p" "group w2 = group w"
    using assms(2) w1 by (simp_all add: w2_def seek_to_frame_other)
  have nm: "\<not> is_master (group w2) q"
    using assms(1) w2 by simp
  have third: "window (world_of (start_playback w2 q)) p = window w p
         \<and> group (world_of (start_playback w2 q)) = group w"
    using assms(2) w2 start_timer_other(1) [of q p w2] start_timer_other(2) [of w2 q]
    by (simp add: start_playback_follower [OF nm] start_playback_nested_def)
  show ?thesis
  proof (cases "loader_thread (window w q) = None \<or> x = current_frame_index (window w q)")
    case True
    then show ?thesis by (auto simp: set_sync_frame_def)
  next
    case False
    show ?thesis
    proof (cases "seek_to_frame w1 q x")
      case (Done w')
      then have "w' = w2" by (simp add: w2_def)
      with Done False first third w2 show ?thesis
        by (auto simp: set_sync_frame_def Let_def)
    next
      case (Raised e w')
      then have "w' = w2" by (simp add: w2_def)
      with Raised False first w2 show ?thesis
        by (auto simp: set_sync_frame_def Let_def)
    qed
  qed
qed

lemma set_sync_frame_same_index:
  "current_frame_index (window w p) = x \<Longrightarrow> set_sync_frame w p x = Done w"
  by (simp add: set_sync_frame_def)

lemma sync_loop_keeps_window:
  assumes "current_frame_index (window w p) = x"
  shows "window (world_of (for_each (\<lambda>w player. if \<not> is_master (group w) player
                           then set_sync_frame w player x else Done w) qs w)) p = window w p"
  using assms
proof (induction qs arbitrary: w)
  case Nil
  then show ?case by simp
next
  case (Cons q qs)
  let ?f = "\<lambda>w player. if \<not> is_master (group w) player
                        then set_sync_frame w player x else Done w"
  show ?case
  proof (cases "is_master (group w) q \<or> q = p")
    case True
    with Cons.prems have "?f w q = Done w"
      by (auto simp: set_sync_frame_same_index)
    with Cons show ?thesis by simp
  next
    case False
    with set_sync_frame_other [of w q p x] have
      other: "window (world_of (set_sync_frame w q x)) p = window w p"
      by simp
    show ?thesis
    proof (cases "set_sync_frame w q x")
      case (Done w')
      with other Cons.prems have "current_frame_index (window w' p) = x"
        "window w' p = window w p"
        by simp_all
      with Cons.IH [of w'] Done False show ?thesis by simp
    next
      case (Raised e w')
      with other False show ?thesis by simp
    qed
  qed
qed

subsection \<open>Sync idempotence\<close>

text \<open>
  C7. For every window \<open>p\<close> and frame index \<open>x\<close>: when the window's current frame index
  is already \<open>x\<close>, \<open>set_sync_frame\<close> with \<open>x\<close> returns at once and leaves the whole world
  as it was (no loader is stopped or started, nothing is paused); and after the group's
  \<open>sync_to_frame\<close> with \<open>x\<close>, whatever the other followers had to do and whether or not
  one of them raised, that window is as it was.
\<close>

theorem sync_to_same_frame_is_noop:
  assumes "current_frame_index (window w p) = x"
  shows "set_sync_frame w p x = Done w
         \<and> window (world_of (sync_to_frame w x)) p = window w p"
  using assms sync_loop_keeps_window [of w p x "players (group w)"]
  by (simp add: set_sync_frame_same_index sync_to_frame_def)

text \<open>
  Three viewers of a five-frame clip: the master at frame 3, a follower already at 3,
  a follower at 1. Sending 3 leaves the first follower as it was and moves the second.
\<close>

theorem sync_to_same_frame_witness:
  "set_sync_frame (viewers 5 [3, 3, 1]) 1 3 = Done (viewers 5 [3, 3, 1])
   \<and> window (world_of (sync_to_frame (viewers 5 [3, 3, 1]) 3)) 1 = viewer_at 5 3
   \<and> current_frame_index (window (world_of (set_sync_frame (viewers 5 [3, 3, 1]) 2 3)) 2) = 3"
proof -
  have at: "current_frame_index (window (viewers 5 [3, 3, 1]) 1) = 3"
    "window (viewers 5 [3, 3, 1]) 1 = viewer_at 5 3"
    by (simp_all add: viewers_def window_def viewer_at_def)
  have moved:
    "current_frame_index (window (world_of (set_sync_frame (viewers 5 [3, 3, 1]) 2 3)) 2) = 3"
    by (simp add: set_sync_frame_def seek_to_frame_def viewers_def window_def viewer_at_def
        update_window_def new_VideoPlayerWindow_def new_VideoLoaderThread_def Let_def)
  from sync_to_same_frame_is_noop [OF at(1)] at(2) moved show ?thesis by simp
qed

subsection \<open>Stepping by one frame\<close>

text \<open>
  C2, the step back. For every window whose current frame index is 0 (or less),
  \<open>prev_frame\<close> returns at once and leaves the world as it was: it does not pause, does
  not seek to \<open>total_frames - 1\<close> and does not resume. The assignment
  \<open>prev_frame_index = self.total_frames - 1\<close> under \<open>if prev_frame_index < 0\<close> is never
  reached, because the method has returned whenever \<open>current_frame_index \<le> 0\<close>.
\<close>

theorem prev_frame_at_first_frame_does_nothing:
  "current_frame_index (window w p) \<le> 0 \<Longrightarrow> prev_frame w p = Done w"
  by (simp add: prev_frame_def)

text \<open>
  One viewer of a five-frame clip. At frame 0 the step back leaves it at frame 0, where
  the spec has it seek to frame 4; at frame 4 the step forward seeks to frame 0, and at
  frame 1 the step back seeks to frame 0.
\<close>

theorem prev_frame_at_first_frame_witness:
  "prev_frame (viewers 5 [0]) 0 = Done (viewers 5 [0])
   \<and> current_frame_index (window (world_of (prev_frame (viewers 5 [0]) 0)) 0) = 0
   \<and> current_frame_index (window (world_of (next_frame (viewers 5 [4]) 0)) 0) = 0
   \<and> current_frame_index (window (world_of (prev_frame (viewers 5 [1]) 0)) 0) = 0"
proof -
  have "current_frame_index (window (viewers 5 [0]) 0) \<le> 0"
    by (simp add: viewers_def window_def viewer_at_def)
  from prev_frame_at_first_frame_does_nothing [OF this]
  have a: "prev_frame (viewers 5 [0]) 0 = Done (viewers 5 [0])" .
  have b: "current_frame_index (window (viewers 5 [0]) 0) = 0"
    by (simp add: viewers_def window_def viewer_at_def)
  have c: "current_frame_index (window (world_of (next_frame (viewers 5 [4]) 0)) 0) = 0"
    by (simp add: next_frame_def seek_to_frame_def viewers_def window_def viewer_at_def
        update_window_def new_VideoPlayerWindow_def new_VideoLoaderThread_def Let_def)
  have d: "current_frame_index (window (world_of (prev_frame (viewers 5 [1]) 0)) 0) = 0"
    by (simp add: prev_frame_def seek_to_frame_def viewers_def window_def viewer_at_def
        update_window_def new_VideoPlayerWindow_def new_VideoLoaderThread_def Let_def)
  from a b c d show ?thesis by simp
qed

section \<open>Properties of the overlay manager\<close>

text \<open>
  C4, as the code behaves. When the main reference or the overlay reference is unset,
  \<open>activate\<close> makes no connection to a frame-update signal and changes nothing but the
  active flag, which it sets: the manager does become active. When both references are
  set it sets the flag and adds one connection, to the main viewer's signal.
\<close>

theorem activate_sets_flag_and_connects_when_complete:
  "(main_player (manager c) = None \<or> overlay_player (manager c) = None \<longrightarrow>
      activate c = c\<lparr>manager := (manager c)\<lparr>is_active := True\<rparr>\<rparr>
      \<and> connections (activate c) = connections c
      \<and> is_active (manager (activate c)))
   \<and> (main_player (manager c) = Some m \<and> overlay_player (manager c) = Some ov \<longrightarrow>
      activate c = c\<lparr>manager := (manager c)\<lparr>is_active := True\<rparr>,
                     connections := connections c @ [m]\<rparr>)"
  by (auto simp: activate_def Let_def split: option.splits)

text \<open>A manager with the main viewer set and no overlay viewer, and one with both.\<close>

theorem activate_sets_flag_witness:
  "activate \<lparr>manager = set_main_player new_OverlayManager 0, connections = []\<rparr>
     = \<lparr>manager = (set_main_player new_OverlayManager 0)\<lparr>is_active := True\<rparr>,
        connections = []\<rparr>
   \<and> connections (activate \<lparr>manager = set_overlay_player (set_main_player new_OverlayManager 0) 1,
                              connections = []\<rparr>) = [0]"
  using activate_sets_flag_and_connects_when_complete
          [of "\<lparr>manager = set_main_player new_OverlayManager 0, connections = []\<rparr>" 0 1]
        activate_sets_flag_and_connects_when_complete
          [of "\<lparr>manager = set_overlay_player (set_main_player new_OverlayManager 0) 1,
                connections = []\<rparr>" 0 1]
  by (simp add: set_main_player_def set_overlay_player_def new_OverlayManager_def)

text \<open>
  The claim as the spec states it fails on a new manager, which has neither reference:
  after \<open>activate\<close> it is active.
\<close>

theorem activate_without_references_counterexample:
  "main_player new_OverlayManager = None \<and> overlay_player new_OverlayManager = None
   \<and> \<not> is_active new_OverlayManager
   \<and> is_active (manager (activate \<lparr>manager = new_OverlayManager, connections = []\<rparr>))"
  by (simp add: activate_def new_OverlayManager_def)

section \<open>Properties of the display\<close>

lemma round_half_even_ge_floor: "\<lfloor>x\<rfloor> \<le> round_half_even x"
  by (simp add: round_half_even_def Let_def)

lemma float64_pos:
  assumes "1 \<le> x"
  shows "0 < float64 x"
proof -
  define n where "n = nat \<lfloor>x\<rfloor>"
  have n: "0 < n" "real n \<le> x"
    using assms by (simp_all add: n_def)
  define e where "e = floorlog 2 n - 1"
  have fl: "floorlog 2 n = Suc e"
    using n(1) floorlog_eq_zero_iff [of 2 n] by (cases "floorlog 2 n") (auto simp: e_def)
  have b: "binade x = int e"
    using assms by (simp add: binade_def n_def [symmetric] fl)
  from floorlog_bounds [of n 2] n(1) have "2 ^ e \<le> n"
    by (simp add: e_def)
  then have pow: "(2::real) ^ e \<le> x"
    using n(2) by (metis of_nat_le_iff of_nat_numeral of_nat_power order_trans)
  define q where "q = (2::real) powi (int e - 52)"
  have "q \<le> 2 powi (int e)"
    unfolding q_def by (intro power_int_increasing) simp_all
  also have "\<dots> = 2 ^ e" by simp
  finally have q: "0 < q" "q \<le> x"
    using pow by (simp_all add: q_def)
  then have "1 \<le> x / q" by simp
  then have "1 \<le> \<lfloor>x / q\<rfloor>" by simp
  with round_half_even_ge_floor [of "x / q"] have "0 < round_half_even (x / q)" by linarith
  moreover have "float64 x = of_int (round_half_even (x / q)) * q"
    using assms b by (simp add: float64_def Let_def q_def max_def)
  ultimately show ?thesis using q(1) by simp
qed

lemma float64_values: "float64 0 = 0" "float64 1 = 1" "float64 255 = 255"
  by (simp add: float64_def, code_simp, code_simp)

lemma astype_uint8_values: "astype_uint8 0 = 0" "astype_uint8 255 = 255"
  by (simp_all add: astype_uint8_def trunc_def)

lemma rescale_ends:
  assumes "lo < hi"
  shows "astype_uint8 (fmul (fdiv (float64 (real (lo - lo))) (float64 (real (hi - lo)))) 255) = 0"
    and "astype_uint8 (fmul (fdiv (float64 (real (hi - lo))) (float64 (real (hi - lo)))) 255) = 255"
proof -
  from assms have "1 \<le> real (hi - lo)" by simp
  from float64_pos [OF this] have "float64 (real (hi - lo)) \<noteq> 0" by simp
  then show "astype_uint8 (fmul (fdiv (float64 (real (hi - lo))) (float64 (real (hi - lo)))) 255)
               = 255"
    by (simp add: fdiv_def fmul_def float64_values astype_uint8_values)
  show "astype_uint8 (fmul (fdiv (float64 (real (lo - lo))) (float64 (real (hi - lo)))) 255) = 0"
    by (simp add: fdiv_def fmul_def float64_values astype_uint8_values)
qed

lemma element_of_frame:
  assumes "well_formed a" "i < height a" "j < width a" "v \<in> set (items a ! i ! j)"
  shows "v \<in> set (elements a)"
proof -
  from assms(1,2) have i: "i < length (items a)" by (simp add: well_formed_def)
  with assms(1,3) have j: "j < length (items a ! i)"
    by (simp add: well_formed_def list_all_length)
  from i have "items a ! i \<in> set (items a)" by simp
  moreover from j have "items a ! i ! j \<in> set (items a ! i)" by simp
  ultimately show ?thesis
    using assms(4) by (auto simp: elements_def)
qed

lemma elements_nonempty:
  assumes "well_formed a" "0 < height a" "0 < width a" "0 < chans a"
  shows "elements a \<noteq> []"
proof -
  from assms have "length (items a ! 0 ! 0) = chans a"
    by (simp add: well_formed_def list_all_length)
  with assms(4) have "items a ! 0 ! 0 ! 0 \<in> set (items a ! 0 ! 0)" by simp
  from element_of_frame [OF assms(1-3) this] show ?thesis by auto
qed

lemma items_map_array:
  assumes "well_formed a" "i < height a" "j < width a"
  shows "items (map_array f a) ! i ! j = map f (items a ! i ! j)"
  using assms by (simp add: map_array_def well_formed_def list_all_length)

lemma normalize_step:
  fixes frame :: "'a::len word ndarray"
  assumes "well_formed frame" "0 < height frame" "0 < width frame" "0 < chans frame"
  shows "\<exists>g. (if LENGTH('a) \<noteq> 8
              then then_do (np_max frame) (\<lambda>mx. then_do (np_min frame) (\<lambda>mn.
                     if mx \<noteq> mn
                     then Inr (map_array
                                (\<lambda>v. astype_uint8
                                        (fmul (fdiv (to_float64 (v - mn)) (to_float64 (mx - mn))) 255))
                                frame)
                     else Inr (map_array (\<lambda>v. 0) frame)))
              else Inr (map_array ucast frame)) = Inr (map_array g frame)
            \<and> (\<forall>v\<in>set (elements frame). g v = rescaled frame v)"
proof -
  define mx where "mx = Max (set (elements frame))"
  define mn where "mn = Min (set (elements frame))"
  have ne: "elements frame \<noteq> []" by (rule elements_nonempty [OF assms])
  have bounds: "mn \<le> v \<and> v \<le> mx" if "v \<in> set (elements frame)" for v
    using that by (simp add: mx_def mn_def)
  have mxin: "mx \<in> set (elements frame)"
    unfolding mx_def using ne by (intro Max_in) simp_all
  have eq: "unat mx = unat mn \<longleftrightarrow> mx = mn" by (simp add: word_unat_eq_iff)
  have sub: "unat (v - mn) = unat v - unat mn" if "v \<in> set (elements frame)" for v
    using bounds [OF that] by (simp add: unat_sub)
  show ?thesis
  proof (cases "LENGTH('a) = 8")
    case True
    then show ?thesis
      by (intro exI [of _ ucast]) (simp add: rescaled_def Let_def)
  next
    case False
    show ?thesis
    proof (cases "mx = mn")
      case True
      with False ne eq show ?thesis
        by (intro exI [of _ "\<lambda>v. 0"])
           (simp add: np_max_def np_min_def then_do_def rescaled_def Let_def mx_def mn_def)
    next
      case neq: False
      with False ne eq sub sub [OF mxin] show ?thesis
        by (intro exI [of _ "\<lambda>v. astype_uint8
                                        (fmul (fdiv (to_float64 (v - mn)) (to_float64 (mx - mn))) 255)"])
           (simp add: np_max_def np_min_def then_do_def rescaled_def Let_def mx_def [symmetric]
              mn_def [symmetric] to_float64_def to_float_def)
    qed
  qed
qed

text \<open>
  C9. For every frame of unsigned integers with at least one element (two axes, or three
  with any number of channels): \<open>display_frame\<close> shows an array of three axes with the
  frame's height and width, in which every value is the frame's value rescaled as the
  spec says (\<open>rescaled\<close>: the code's subtractions do not wrap); a frame of two axes or of
  one channel is shown with its one value repeated three times, a frame of four channels
  with its first three values and the fourth dropped, any other frame with its channels
  as they are. When the frame is not 8-bit, the rescaling maps the frame's minimum to 0
  and, unless the frame is constant, its maximum to 255; a constant frame is shown as
  zeros.
\<close>

theorem display_frame_normalizes:
  fixes frame :: "'a::len word ndarray"
  assumes "well_formed frame" "0 < height frame" "0 < width frame" "0 < chans frame"
  shows "(\<exists>out. display_frame frame = Some out
            \<and> ndim out = 3 \<and> height out = height frame \<and> width out = width frame
            \<and> chans out = (if ndim frame = 2 \<or> chans frame = 1 \<or> chans frame = 4 then 3
                            else chans frame)
            \<and> (\<forall>i<height frame. \<forall>j<width frame.
                  items out ! i ! j =
                    (let p = map (rescaled frame) (items frame ! i ! j)
                     in if ndim frame = 2 \<or> chans frame = 1 then [hd p, hd p, hd p]
                        else if chans frame = 4 then take 3 p else p)))
         \<and> (LENGTH('a) \<noteq> 8 \<longrightarrow>
              rescaled frame (Min (set (elements frame))) = 0
              \<and> (Max (set (elements frame)) \<noteq> Min (set (elements frame)) \<longrightarrow>
                   rescaled frame (Max (set (elements frame))) = 255)
              \<and> (Max (set (elements frame)) = Min (set (elements frame)) \<longrightarrow>
                   (\<forall>v. rescaled frame v = 0)))"
proof -
  from normalize_step [OF assms] obtain g where
    g: "(if LENGTH('a) \<noteq> 8
              then then_do (np_max frame) (\<lambda>mx. then_do (np_min frame) (\<lambda>mn.
                     if mx \<noteq> mn
                     then Inr (map_array
                                (\<lambda>v. astype_uint8
                                        (fmul (fdiv (to_float64 (v - mn)) (to_float64 (mx - mn))) 255))
                                frame)
                     else Inr (map_array (\<lambda>v. 0) frame)))
              else Inr (map_array ucast frame)) = Inr (map_array g frame)"
    and gn: "\<forall>v\<in>set (elements frame). g v = rescaled frame v"
    by blast
  define nf where "nf = map_array g frame"
  have shape: "ndim nf = ndim frame" "height nf = height frame" "width nf = width frame"
    "chans nf = chans frame"
    by (simp_all add: nf_def map_array_def)
  have len: "length (items nf) = height frame"
    "\<forall>i<height frame. length (items nf ! i) = width frame"
    using assms(1) by (simp_all add: nf_def map_array_def well_formed_def list_all_length)
  have cell: "items nf ! i ! j = map (rescaled frame) (items frame ! i ! j)"
    if "i < height frame" "j < width frame" for i j
  proof -
    have "items nf ! i ! j = map g (items frame ! i ! j)"
      unfolding nf_def by (rule items_map_array [OF assms(1) that])
    also have "\<dots> = map (rescaled frame) (items frame ! i ! j)"
      using gn element_of_frame [OF assms(1) that] by (intro map_cong) auto
    finally show ?thesis .
  qed
  have two: "chans frame = 1" if "ndim frame = 2"
    using assms(1) that by (simp add: well_formed_def)
  have df: "display_frame frame =
     (case (if ndim nf = 2 then cvtColor_GRAY2RGB nf
            else if chans nf = 1 then cvtColor_GRAY2RGB nf
            else if chans nf = 4 then cvtColor_RGBA2RGB nf
            else Inr nf)
      of Inl e \<Rightarrow> None | Inr rgb \<Rightarrow> Some rgb)"
    unfolding display_frame_def g nf_def by (simp add: then_do_def)
  have first: "\<exists>out. display_frame frame = Some out
            \<and> ndim out = 3 \<and> height out = height frame \<and> width out = width frame
            \<and> chans out = (if ndim frame = 2 \<or> chans frame = 1 \<or> chans frame = 4 then 3
                            else chans frame)
            \<and> (\<forall>i<height frame. \<forall>j<width frame.
                  items out ! i ! j =
                    (let p = map (rescaled frame) (items frame ! i ! j)
                     in if ndim frame = 2 \<or> chans frame = 1 then [hd p, hd p, hd p]
                        else if chans frame = 4 then take 3 p else p))"
  proof (cases "ndim frame = 2 \<or> chans frame = 1")
    case True
    then have "display_frame frame = Some \<lparr>ndim = 3, height = height nf, width = width nf,
                 chans = 3, items = map (map (\<lambda>p. [hd p, hd p, hd p])) (items nf)\<rparr>"
      using assms(2,3) by (auto simp: df shape cvtColor_GRAY2RGB_def)
    with True show ?thesis
      using len by (auto simp: shape cell Let_def)
  next
    case gray: False
    show ?thesis
    proof (cases "chans frame = 4")
      case True
      with gray have "display_frame frame = Some \<lparr>ndim = 3, height = height nf, width = width nf,
                 chans = 3, items = map (map (take 3)) (items nf)\<rparr>"
        using assms(2,3) by (auto simp: df shape cvtColor_RGBA2RGB_def)
      with True gray show ?thesis
        using len by (auto simp: shape cell Let_def)
    next
      case False
      with gray have "display_frame frame = Some nf"
        by (auto simp: df shape)
      moreover from gray assms(1) have "ndim frame = 3" by (auto simp: well_formed_def)
      ultimately show ?thesis
        using False gray by (auto simp: shape cell Let_def)
    qed
  qed
  have second: "rescaled frame (Min (set (elements frame))) = 0
              \<and> (Max (set (elements frame)) \<noteq> Min (set (elements frame)) \<longrightarrow>
                   rescaled frame (Max (set (elements frame))) = 255)
              \<and> (Max (set (elements frame)) = Min (set (elements frame)) \<longrightarrow>
                   (\<forall>v. rescaled frame v = 0))"
    if wide: "LENGTH('a) \<noteq> 8"
  proof -
    define lo where "lo = unat (Min (set (elements frame)))"
    define hi where "hi = unat (Max (set (elements frame)))"
    have ne: "elements frame \<noteq> []" by (rule elements_nonempty [OF assms])
    then have "Min (set (elements frame)) \<le> Max (set (elements frame))"
      by (intro Min_le Max_in) simp_all
    then have le: "lo \<le> hi" by (simp add: lo_def hi_def word_le_nat_alt)
    have eq: "hi = lo \<longleftrightarrow> Max (set (elements frame)) = Min (set (elements frame))"
      by (simp add: lo_def hi_def word_unat_eq_iff)
    show ?thesis
    proof (cases "hi = lo")
      case True
      with wide eq show ?thesis
        by (simp add: rescaled_def Let_def lo_def [symmetric] hi_def [symmetric])
    next
      case False
      with le have "lo < hi" by simp
      from rescale_ends [OF this] wide False eq show ?thesis
        by (simp add: rescaled_def Let_def lo_def [symmetric] hi_def [symmetric])
    qed
  qed
  from first second show ?thesis by blast
qed

lemma half_scale_value: "astype_uint8 (fmul (fdiv (float64 1000) (float64 2000)) 255) = 127"
  by code_simp

text \<open>
  A 16-bit grey frame with minimum 1000 and maximum 3000 (the value 2000 is shown as
  127, the integer part of 127.5), a constant 16-bit frame, and an 8-bit RGBA pixel.
\<close>

theorem display_frame_normalizes_witness:
  "(\<exists>out. display_frame (array2 [[1000, 3000], [2000, 1000]] :: u16 ndarray) = Some out
       \<and> ndim out = 3 \<and> chans out = 3
       \<and> items out ! 0 ! 0 = [0, 0, 0] \<and> items out ! 0 ! 1 = [255, 255, 255]
       \<and> items out ! 1 ! 0 = [127, 127, 127])
   \<and> (\<exists>out. display_frame (array2 [[7, 7]] :: u16 ndarray) = Some out
         \<and> items out ! 0 ! 0 = [0, 0, 0] \<and> items out ! 0 ! 1 = [0, 0, 0])
   \<and> (\<exists>out. display_frame (array3 [[[10, 20, 30, 40]]] :: u8 ndarray) = Some out
         \<and> chans out = 3 \<and> items out ! 0 ! 0 = [10, 20, 30])"
proof -
  let ?f = "array2 [[1000, 3000], [2000, 1000]] :: u16 ndarray"
  let ?k = "array2 [[7, 7]] :: u16 ndarray"
  let ?c = "array3 [[[10, 20, 30, 40]]] :: u8 ndarray"
  have wf: "well_formed ?f" "well_formed ?k" "well_formed ?c"
    by (simp_all add: well_formed_def array2_def array3_def)
  have el: "elements ?f = [1000, 3000, 2000, 1000]" "elements ?k = [7, 7]"
    by (simp_all add: elements_def array2_def)
  have mm: "Min (set (elements ?f)) = 1000" "Max (set (elements ?f)) = 3000"
    "Min (set (elements ?k)) = 7" "Max (set (elements ?k)) = 7"
    by (simp_all add: el)
  have mid: "rescaled ?f 2000 = 127"
    by (simp add: rescaled_def Let_def mm half_scale_value)
  note f = display_frame_normalizes [of ?f]
  note k = display_frame_normalizes [of ?k]
  note c = display_frame_normalizes [of ?c]
  from f wf(1) mm(1,2) mid have a:
    "\<exists>out. display_frame ?f = Some out \<and> ndim out = 3 \<and> chans out = 3
       \<and> items out ! 0 ! 0 = [0, 0, 0] \<and> items out ! 0 ! 1 = [255, 255, 255]
       \<and> items out ! 1 ! 0 = [127, 127, 127]"
    by (auto simp: array2_def Let_def)
  from k wf(2) mm(3,4) have b:
    "\<exists>out. display_frame ?k = Some out
       \<and> items out ! 0 ! 0 = [0, 0, 0] \<and> items out ! 0 ! 1 = [0, 0, 0]"
    by (auto simp: array2_def Let_def)
  from c wf(3) have d:
    "\<exists>out. display_frame ?c = Some out \<and> chans out = 3 \<and> items out ! 0 ! 0 = [10, 20, 30]"
    by (auto simp: array3_def Let_def rescaled_def)
  from a b d show ?thesis by blast
qed

end
